theory Spec2Isabelle
  imports Complex_Main "HOL-Library.Sublist" "HOL-Library.Multiset" "HOL-Library.AList"
begin

section \<open>Python strings, errors and numbers\<close>

text \<open>
  The module \<^verbatim>\<open>arm5_py_integration/__init__.py\<close> assembles HTML and CSS fragments.
  A Python \<^verbatim>\<open>str\<close> is modelled as a \<^typ>\<open>string\<close> whose characters are the code
  points 0 to 255; an exception is a value \<open>Inl e\<close> of a sum type.
\<close>

datatype error = ValueError string | TypeError string

definition nl :: char where
  "nl = CHR 0x0A"

definition sq :: char where
  "sq = CHR 0x27"

text \<open>\<^verbatim>\<open>sep.join(xs)\<close>\<close>

fun join :: "string \<Rightarrow> string list \<Rightarrow> string" where
  "join sep [] = []"
| "join sep [x] = x"
| "join sep (x # y # ys) = x @ sep @ join sep (y # ys)"

text \<open>The lines of the entries \<open>es\<close> joined by a comma, a newline and the indentation
  \<open>ind\<close>, behind a first \<open>ind\<close>: every entry indented, every entry but the last followed
  by its comma.\<close>

fun with_commas :: "string \<Rightarrow> string list \<Rightarrow> string list" where
  "with_commas ind [] = []"
| "with_commas ind [e] = [ind @ e]"
| "with_commas ind (e # e' # es) = (ind @ e @ '','') # with_commas ind (e' # es)"

text \<open>\<^verbatim>\<open>s.replace(old, new)\<close>: leftmost, non-overlapping occurrences; an empty \<^verbatim>\<open>old\<close>
  matches before every character and at the end.\<close>

fun str_replace :: "string \<Rightarrow> string \<Rightarrow> string \<Rightarrow> string" where
  "str_replace old new [] = (if old = [] then new else [])"
| "str_replace old new (c # cs) =
     (if old = [] then new @ c # str_replace old new cs
      else if prefix old (c # cs) then new @ str_replace old new (drop (length old) (c # cs))
      else c # str_replace old new cs)"

text \<open>\<^verbatim>\<open>s.lstrip(chars)\<close> for a one-character \<^verbatim>\<open>chars\<close>.\<close>

definition lstrip :: "char \<Rightarrow> string \<Rightarrow> string" where
  "lstrip c s = dropWhile (\<lambda>x. x = c) s"

text \<open>\<^verbatim>\<open>str(n)\<close> for an integer: decimal digits, a minus sign for negative numbers.\<close>

definition digit_char :: "nat \<Rightarrow> char" where
  "digit_char d = char_of (48 + d)"

fun str_nat :: "nat \<Rightarrow> string" where
  "str_nat n = (if n < 10 then [digit_char n] else str_nat (n div 10) @ [digit_char (n mod 10)])"

declare str_nat.simps [simp del]

definition str_int :: "int \<Rightarrow> string" where
  "str_int i = (if i < 0 then CHR ''-'' # str_nat (nat (- i)) else str_nat (nat i))"

subsection \<open>\<^verbatim>\<open>int(s, 16)\<close>\<close>

text \<open>
  CPython's \<^verbatim>\<open>int(s, 16)\<close> on a string: Unicode white space outside ASCII (here the code
  points 0x85 and 0xA0) counts as a blank, leading and trailing white space is skipped,
  one sign and one \<^verbatim>\<open>0x\<close> prefix are allowed, single underscores may separate digits, and
  anything else raises \<^verbatim>\<open>ValueError\<close>. The message carries the literal itself where Python
  prints its \<^verbatim>\<open>repr\<close>.
\<close>

definition py_isspace :: "char \<Rightarrow> bool" where
  "py_isspace c \<longleftrightarrow> c \<in> {CHR '' '', CHR 0x09, CHR 0x0A, CHR 0x0B, CHR 0x0C, CHR 0x0D}"

definition hex_digit :: "char \<Rightarrow> int option" where
  "hex_digit c =
     (let n = (of_char c :: nat) in
      if 48 \<le> n \<and> n \<le> 57 then Some (int n - 48)
      else if 97 \<le> n \<and> n \<le> 102 then Some (int n - 87)
      else if 65 \<le> n \<and> n \<le> 70 then Some (int n - 55)
      else None)"

fun scan_digits :: "string \<Rightarrow> int \<Rightarrow> bool \<Rightarrow> (int \<times> string) option" where
  "scan_digits [] acc prev_us = (if prev_us then None else Some (acc, []))"
| "scan_digits (c # cs) acc prev_us =
     (if c = CHR ''_'' then (if prev_us then None else scan_digits cs acc True)
      else case hex_digit c of
             Some d \<Rightarrow> scan_digits cs (acc * 16 + d) False
           | None \<Rightarrow> (if prev_us then None else Some (acc, c # cs)))"

definition skip_sign :: "string \<Rightarrow> int \<times> string" where
  "skip_sign s =
     (case s of
        [] \<Rightarrow> (1, s)
      | c # r \<Rightarrow> if c = CHR ''+'' then (1, r) else if c = CHR ''-'' then (- 1, r) else (1, s))"

definition skip_prefix16 :: "string \<Rightarrow> string" where
  "skip_prefix16 s =
     (case s of
        z # x # r \<Rightarrow>
          if z = CHR ''0'' \<and> (x = CHR ''x'' \<or> x = CHR ''X'')
          then (case r of [] \<Rightarrow> r | u # r' \<Rightarrow> if u = CHR ''_'' then r' else r)
          else s
      | _ \<Rightarrow> s)"

definition py_int16 :: "string \<Rightarrow> error + int" where
  "py_int16 s =
     (let bad = Inl (ValueError (''invalid literal for int() with base 16: '' @ s));
          s1 = map (\<lambda>c. if c = CHR 0x85 \<or> c = CHR 0xA0 then CHR '' '' else c) s;
          (sign, s3) = skip_sign (dropWhile py_isspace s1);
          s4 = skip_prefix16 s3
      in if s4 \<noteq> [] \<and> hd s4 = CHR ''_'' then bad
         else case scan_digits s4 0 False of
                None \<Rightarrow> bad
              | Some (v, rest) \<Rightarrow>
                  if length rest = length s4 then bad
                  else if dropWhile py_isspace rest \<noteq> [] then bad
                  else Inr (sign * v))"

subsection \<open>Floating point\<close>

text \<open>
  A Python \<^verbatim>\<open>float\<close> is an IEEE 754 binary64 number. Every finite one is a rational number, and
  each arithmetic operation returns the exact result rounded to the nearest representable
  number, ties to the even significand. \<open>fl\<close> is that rounding: 53 significant bits,
  with the spacing of the subnormals below \<open>2 ^ - 1022\<close>. Overflow to infinity is not
  modelled: the operands below are at most 255 in magnitude.
\<close>

definition pow2 :: "int \<Rightarrow> real" where
  "pow2 e = (if 0 \<le> e then 2 ^ nat e else 1 / 2 ^ nat (- e))"

fun bitlen :: "nat \<Rightarrow> nat" where
  "bitlen n = (if n = 0 then 0 else Suc (bitlen (n div 2)))"

declare bitlen.simps [simp del]

text \<open>
  The exponent of a positive number: the \<open>e\<close> with \<open>2 ^ e \<le> a < 2 ^ (e + 1)\<close>, read off
  the number of bits of the integer part of \<open>a\<close>, or of \<open>1 / a\<close> rounded up when \<open>a < 1\<close>.
\<close>

definition ilog2 :: "real \<Rightarrow> int" where
  "ilog2 a =
     (if 1 \<le> a then int (bitlen (nat \<lfloor>a\<rfloor>)) - 1
      else - int (bitlen (nat (\<lceil>1 / a\<rceil> - 1))))"

definition round_half_even :: "real \<Rightarrow> int" where
  "round_half_even y =
     (let n = \<lfloor>y\<rfloor>; f = y - of_int n
      in if f < 1 / 2 then n else if 1 / 2 < f then n + 1 else if even n then n else n + 1)"

definition fl :: "real \<Rightarrow> real" where
  "fl x =
     (if x = 0 then 0
      else let a = \<bar>x\<bar>;
               q = pow2 (max (ilog2 a - 52) (- 1074))
           in sgn x * of_int (round_half_even (a / q)) * q)"

definition fadd :: "real \<Rightarrow> real \<Rightarrow> real" where
  "fadd x y = fl (x + y)"

definition fmul :: "real \<Rightarrow> real \<Rightarrow> real" where
  "fmul x y = fl (x * y)"

text \<open>\<^verbatim>\<open>n / 255\<close> for an integer \<open>n\<close>: the correctly rounded quotient.\<close>

definition int_truediv :: "int \<Rightarrow> int \<Rightarrow> real" where
  "int_truediv n d = fl (of_int n / of_int d)"

section \<open>Colours of the custom roll template\<close>

text \<open>
  One row of \<^verbatim>\<open>css_colors.csv\<close> as \<^verbatim>\<open>csv.DictReader\<close> yields it: the columns \<^verbatim>\<open>color\<close>
  and \<^verbatim>\<open>hex\<close>.
\<close>

record color_def =
  color :: string
  hex :: string

definition lines_header :: "color_def \<Rightarrow> string list" where
  "lines_header cd =
     [''.sheet-rolltemplate-custom .sheet-crt-container.sheet-crt-color-'' @ color cd @ '' {'',
      ''    --header-bg-color: '' @ hex cd @ '';'']"

definition lines_rolls :: "color_def \<Rightarrow> string list" where
  "lines_rolls cd =
     [''.sheet-rolltemplate-custom .sheet-crt-container.sheet-crt-rlcolor-'' @ color cd
        @ '' .inlinerollresult {'',
      ''    --roll-bg-color: '' @ hex cd @ '';'']"

definition lines_buttons :: "color_def \<Rightarrow> string list" where
  "lines_buttons cd =
     [''.sheet-rolltemplate-custom .sheet-crt-container.sheet-crt-btcolor-'' @ color cd @ '' a {'',
      ''    --button-bg-color: '' @ hex cd @ '';'']"

text \<open>\<^verbatim>\<open>int(hex[2 * i : 2 * i + 2], 16) / 255\<close>\<close>

definition channel :: "string \<Rightarrow> nat \<Rightarrow> error + real" where
  "channel h i =
     (case py_int16 (take 2 (drop (2 * i) h)) of
        Inl e \<Rightarrow> Inl e
      | Inr n \<Rightarrow> Inr (int_truediv n 255))"

text \<open>\<^verbatim>\<open>luma = 0.2126 * r + 0.7152 * g + 0.0722 * b\<close>, each literal the nearest float.\<close>

definition luma_rgb :: "real \<Rightarrow> real \<Rightarrow> real \<Rightarrow> real" where
  "luma_rgb r g b =
     fadd (fadd (fmul (fl (2126 / 10000)) r) (fmul (fl (7152 / 10000)) g))
          (fmul (fl (722 / 10000)) b)"

text \<open>The luma of a row; the three channels are parsed in order and the first bad one raises.\<close>

definition luma :: "color_def \<Rightarrow> error + real" where
  "luma cd =
     (let h = lstrip (CHR ''#'') (hex cd) in
      case channel h 0 of
        Inl e \<Rightarrow> Inl e
      | Inr r \<Rightarrow>
          (case channel h 1 of
             Inl e \<Rightarrow> Inl e
           | Inr g \<Rightarrow>
               (case channel h 2 of
                  Inl e \<Rightarrow> Inl e
                | Inr b \<Rightarrow> Inr (luma_rgb r g b))))"

text \<open>The body of the loop over the rows: the three rule blocks of one colour.\<close>

definition color_rules :: "color_def \<Rightarrow> error + string list" where
  "color_rules cd =
     (case luma cd of
        Inl e \<Rightarrow> Inl e
      | Inr l \<Rightarrow>
          (let hd_lines = lines_header cd
                 @ (if 1 / 2 < l then [''    --header-text-color: #000;''] else []);
               bt_lines = lines_buttons cd
                 @ (if 1 / 2 < l then [''    --button-text-color: #000;''] else []);
               rl_lines = lines_rolls cd
                 @ (if l < 1 / 2 then [''    --roll-text-color: #FFF;''] else [])
           in Inr (map (\<lambda>lines. join [nl] (lines @ [''}''])) [hd_lines, rl_lines, bt_lines])))"

fun css_rules_loop :: "color_def list \<Rightarrow> string list \<Rightarrow> error + string list" where
  "css_rules_loop [] css_rules = Inr css_rules"
| "css_rules_loop (cd # reader) css_rules =
     (case color_rules cd of
        Inl e \<Rightarrow> Inl e
      | Inr rules \<Rightarrow> css_rules_loop reader (css_rules @ rules))"

definition custom_rt_color_css :: "color_def list \<Rightarrow> error + string" where
  "custom_rt_color_css reader =
     (case css_rules_loop reader [] of
        Inl e \<Rightarrow> Inl e
      | Inr css_rules \<Rightarrow> Inr (join [nl] css_rules))"

section \<open>Banners\<close>

subsection \<open>\<^verbatim>\<open>textwrap.dedent\<close> and \<^verbatim>\<open>str.title\<close>\<close>

definition is_blank :: "char \<Rightarrow> bool" where
  "is_blank c \<longleftrightarrow> c = CHR '' '' \<or> c = CHR 0x09"

text \<open>\<^verbatim>\<open>text.split("\n")\<close>\<close>

fun split_nl :: "string \<Rightarrow> string list" where
  "split_nl [] = [[]]"
| "split_nl (c # cs) =
     (if c = nl then [] # split_nl cs
      else case split_nl cs of [] \<Rightarrow> [[c]] | l # ls \<Rightarrow> (c # l) # ls)"

text \<open>
  The loop \<^verbatim>\<open>for i, (x, y) in enumerate(zip(margin, indent))\<close> of \<^verbatim>\<open>dedent\<close>: the margin is
  cut at the first position where the two differ, and kept when there is none.
\<close>

fun common_margin :: "string \<Rightarrow> string \<Rightarrow> string" where
  "common_margin (x # xs) (y # ys) = (if x \<noteq> y then [] else x # common_margin xs ys)"
| "common_margin xs ys = xs"

definition margin_step :: "string option \<Rightarrow> string \<Rightarrow> string option" where
  "margin_step margin indent =
     (case margin of
        None \<Rightarrow> Some indent
      | Some m \<Rightarrow>
          if prefix m indent then Some m
          else if prefix indent m then Some indent
          else Some (common_margin m indent))"

text \<open>
  \<^verbatim>\<open>textwrap.dedent\<close> (the implementation of Python 3.13 and earlier): lines of blanks
  and tabs only become empty, the margin is the longest run of blanks and tabs that starts
  every other non-empty line, and it is removed from each line that starts with it.
\<close>

definition dedent :: "string \<Rightarrow> string" where
  "dedent text =
     (let lines = map (\<lambda>l. if l \<noteq> [] \<and> list_all is_blank l then [] else l) (split_nl text);
          indents = map (takeWhile is_blank) (filter (list_ex (\<lambda>c. \<not> is_blank c)) lines);
          margin = fold (\<lambda>indent m. margin_step m indent) indents None
      in case margin of
           None \<Rightarrow> join [nl] lines
         | Some m \<Rightarrow>
             if m = [] then join [nl] lines
             else join [nl] (map (\<lambda>l. if prefix m l then drop (length m) l else l) lines))"

text \<open>
  \<^verbatim>\<open>s.title()\<close> on the letters of ASCII: the first letter of every run of letters in
  upper case, the others in lower case. \<^verbatim>\<open>alert\<close> reaches it with \<^verbatim>\<open>"info"\<close> and
  \<^verbatim>\<open>"warning"\<close> only.
\<close>

definition is_lower :: "char \<Rightarrow> bool" where
  "is_lower c \<longleftrightarrow> 97 \<le> (of_char c :: nat) \<and> (of_char c :: nat) \<le> 122"

definition is_upper :: "char \<Rightarrow> bool" where
  "is_upper c \<longleftrightarrow> 65 \<le> (of_char c :: nat) \<and> (of_char c :: nat) \<le> 90"

fun title_from :: "bool \<Rightarrow> string \<Rightarrow> string" where
  "title_from prev_cased [] = []"
| "title_from prev_cased (c # cs) =
     (if is_lower c
      then (if prev_cased then c else char_of ((of_char c :: nat) - 32)) # title_from True cs
      else if is_upper c
      then (if prev_cased then char_of ((of_char c :: nat) + 32) else c) # title_from True cs
      else c # title_from False cs)"

definition str_title :: "string \<Rightarrow> string" where
  "str_title s = title_from False s"

subsection \<open>\<^verbatim>\<open>alert\<close> and \<^verbatim>\<open>disable_old_alerts\<close>\<close>

text \<open>
  The function attributes \<^verbatim>\<open>alert.numid\<close> and \<^verbatim>\<open>alert.strid\<close> are the state of the
  helper; the module sets them to \<^verbatim>\<open>0\<close> and \<^verbatim>\<open>[]\<close>.
\<close>

record alert_state =
  numid :: int
  strid :: "string list"

definition alert_init :: alert_state where
  "alert_init = \<lparr>numid = 0, strid = []\<rparr>"

text \<open>An identifier is the integer counter or a string; an f-string formats either.\<close>

datatype alert_id = NumId int | StrId string

fun fmt_id :: "alert_id \<Rightarrow> string" where
  "fmt_id (NumId i) = str_int i"
| "fmt_id (StrId s) = s"

text \<open>The branch on \<^verbatim>\<open>ID is None\<close>: the identifier of the banner and the updated state.\<close>

definition assign_id :: "string option \<Rightarrow> alert_state \<Rightarrow> alert_id \<times> alert_state" where
  "assign_id ID st =
     (case ID of
        None \<Rightarrow> (NumId (numid st), st\<lparr>numid := numid st + 1\<rparr>)
      | Some i \<Rightarrow> (StrId i, st\<lparr>strid := strid st @ [i]\<rparr>))"

text \<open>The f-string of \<^verbatim>\<open>alert\<close>, before \<^verbatim>\<open>textwrap.dedent\<close>.\<close>

definition alert_html :: "string \<Rightarrow> string \<Rightarrow> string \<Rightarrow> string \<Rightarrow> string" where
  \<open>alert_html alert_id level title text =
     ''        <input type="hidden" class="alert-hidder" name="attr_alert-'' @ alert_id
       @ ''" value="0"/>'' @ [nl]
     @ ''        <div class="alert alert-'' @ level @ ''">'' @ [nl]
     @ ''            <div>'' @ [nl]
     @ ''                <h3> '' @ str_title level @ '' - '' @ title @ ''</h3>'' @ [nl]
     @ ''                '' @ text @ [nl]
     @ ''            </div>'' @ [nl]
     @ ''            <label class="fakebutton">'' @ [nl]
     @ ''                <input type="checkbox" name="attr_alert-'' @ alert_id
       @ ''" value="1" /> '' @ [CHR 0xD7] @ [nl]
     @ ''            </label>'' @ [nl]
     @ ''        </div>''\<close>

definition alert ::
  "string \<Rightarrow> string \<Rightarrow> string \<Rightarrow> string option \<Rightarrow> alert_state \<Rightarrow> (error + string) \<times> alert_state"
where
  "alert title text level ID st =
     (if level \<notin> {''info'', ''warning''}
      then (Inl (ValueError (''Level must be among '' @ [sq] @ ''info'' @ [sq] @ '', ''
                   @ [sq] @ ''warning'' @ [sq])), st)
      else let (alert_id, st') = assign_id ID st;
               indent = replicate (4 * 4) (CHR '' '');
               text' = str_replace [nl] (nl # indent) text
           in (Inr (dedent (alert_html (fmt_id alert_id) level title text')), st'))"

text \<open>The generator expression of \<^verbatim>\<open>disable_old_alerts\<close>: one entry for each of
  \<^verbatim>\<open>list(range(alert.numid)) + alert.strid\<close>.\<close>

definition alert_ids :: "alert_state \<Rightarrow> alert_id list" where
  "alert_ids st = map NumId [0 .. numid st - 1] @ map StrId (strid st)"

definition alert_entry :: "alert_id \<Rightarrow> string" where
  \<open>alert_entry i = ''"alert-'' @ fmt_id i @ ''": 1''\<close>

definition disable_old_alerts :: "string \<Rightarrow> alert_state \<Rightarrow> string" where
  \<open>disable_old_alerts marker st =
     (let indent = replicate (4 * 3) (CHR '' '');
          lines = join ('','' @ nl # indent) (map alert_entry (alert_ids st))
      in dedent
           (''        setAttrs({'' @ [nl]
            @ ''            "'' @ marker @ ''": 1,'' @ [nl]
            @ ''            '' @ lines @ [nl]
            @ ''        }); ''))\<close>

text \<open>
  A run of calls of \<^verbatim>\<open>alert\<close>, each with its title, text, level and ID: the banners
  returned, each with the identifier that the call gave it, in the order of the calls, and
  the state after the last call; \<open>None\<close> when a call raises. \<open>explicit_ids\<close> lists the IDs
  that the calls pass explicitly.
\<close>

type_synonym alert_call = "string \<times> string \<times> string \<times> string option"

fun run_alerts ::
  "alert_call list \<Rightarrow> alert_state \<Rightarrow> ((alert_id \<times> string) list \<times> alert_state) option" where
  "run_alerts [] st = Some ([], st)"
| "run_alerts ((title, text, level, ID) # calls) st =
     (case alert title text level ID st of
        (Inl e, st') \<Rightarrow> None
      | (Inr banner, st') \<Rightarrow>
          (case run_alerts calls st' of
             None \<Rightarrow> None
           | Some (banners, st'') \<Rightarrow> Some ((fst (assign_id ID st), banner) # banners, st'')))"

fun explicit_ids :: "alert_call list \<Rightarrow> string list" where
  "explicit_ids [] = []"
| "explicit_ids ((title, text, level, ID) # calls) =
     (case ID of None \<Rightarrow> explicit_ids calls | Some i \<Rightarrow> i # explicit_ids calls)"

text \<open>The number that a string of decimal digits denotes; it reads \<open>str_nat\<close> back.\<close>

definition digits_value :: "string \<Rightarrow> nat" where
  "digits_value s = foldl (\<lambda>a c. 10 * a + (of_char c - 48)) 0 s"

text \<open>
  What a banner shows of its identifier: \<open>banner_name\<close> is the first line of the banner
  without its leading blanks, the hidden input; \<open>banner_id\<close> is what that line has between
  \<^verbatim>\<open>name="attr_alert-\<close> and \<^verbatim>\<open>" value="0"/>\<close>.
\<close>

definition banner_name :: "string \<Rightarrow> string" where
  "banner_name banner = dropWhile is_blank (takeWhile (\<lambda>c. c \<noteq> nl) banner)"

definition banner_id :: "string \<Rightarrow> string" where
  \<open>banner_id banner =
     (let line = banner_name banner;
          pre = ''<input type="hidden" class="alert-hidder" name="attr_alert-'';
          post = ''" value="0"/>''
      in take (length line - length pre - length post) (drop (length pre) line))\<close>

section \<open>Repeated templates\<close>

text \<open>
  Modelled from the spec: \<^verbatim>\<open>repeat_template\<close> is imported from \<^verbatim>\<open>helpers.py\<close>, which is
  not among the sources. The spec's contract of the Template Repeater: given a template
  with a placeholder token and a sequence of substitution values, the result is the
  concatenation of the template once per value, with all occurrences of the placeholder
  replaced by the value of that iteration. The values are taken as strings (\<^verbatim>\<open>str\<close> of
  each element); the variant with named fields (\<^verbatim>\<open>tuple_keys\<close>) is not modelled.
\<close>

definition repeat_template :: "string \<Rightarrow> string list \<Rightarrow> string \<Rightarrow> string" where
  "repeat_template template repeat rep_key =
     concat (map (\<lambda>i. str_replace rep_key i template) repeat)"

text \<open>\<^verbatim>\<open>s.count(sub)\<close>: the number of non-overlapping occurrences, found from the left.\<close>

fun str_count :: "string \<Rightarrow> string \<Rightarrow> nat" where
  "str_count sub [] = (if sub = [] then 1 else 0)"
| "str_count sub (c # cs) =
     (if sub = [] then Suc (str_count sub cs)
      else if prefix sub (c # cs) then Suc (str_count sub (drop (length sub) (c # cs)))
      else str_count sub cs)"

text \<open>
  The rows of the personality traits. \<^verbatim>\<open>personnality_template\<close> comes from \<^verbatim>\<open>rolltemplate\<close>
  of \<^verbatim>\<open>helpers.py\<close>; its two macro strings \<^verbatim>\<open>simple\<close> and \<^verbatim>\<open>stress\<close> are parameters here.
  \<^verbatim>\<open>range(1, 7)\<close> is the list of the numbers 1 to 6.
\<close>

definition personality_trait_template :: "string \<Rightarrow> string \<Rightarrow> string" where
  \<open>personality_trait_template simple stress =
     ''        <tr>'' @ [nl]
     @ ''            <td><input type="text" class="heading_2" style="width:245px" name="attr_Personality_Trait$$"/></td>'' @ [nl]
     @ ''            <td><input type="text" class="number_1" style="width:70px;" name="attr_Personality_Trait$$_score"/></td>'' @ [nl]
     @ ''            <td><div class="flex-container">'' @ [nl]
     @ ''                <button type="roll" class="button simple-roll" name="roll_personality$$_simple" value="''
       @ simple @ ''"></button>'' @ [nl]
     @ ''                <button type="roll" class="button stress-roll" name="roll_personality$$_stress" value="''
       @ stress @ ''"></button>'' @ [nl]
     @ ''            </div></td>'' @ [nl]
     @ ''        </tr>''\<close>

definition personality_trait_rows :: "string \<Rightarrow> string \<Rightarrow> string" where
  "personality_trait_rows simple stress =
     repeat_template (dedent (personality_trait_template simple stress))
       (map str_int [1 .. 6]) ''$$''"

text \<open>The lines of the template of the personality traits, without their common margin of
  eight blanks.\<close>

definition personality_lines :: "string \<Rightarrow> string \<Rightarrow> string list" where
  \<open>personality_lines simple stress =
     [''<tr>'',
      ''    <td><input type="text" class="heading_2" style="width:245px" name="attr_Personality_Trait$$"/></td>'',
      ''    <td><input type="text" class="number_1" style="width:70px;" name="attr_Personality_Trait$$_score"/></td>'',
      ''    <td><div class="flex-container">'',
      ''        <button type="roll" class="button simple-roll" name="roll_personality$$_simple" value="''
        @ simple @ ''"></button>'',
      ''        <button type="roll" class="button stress-roll" name="roll_personality$$_stress" value="''
        @ stress @ ''"></button>'',
      ''    </div></td>'',
      ''</tr>'']\<close>

section \<open>Macros\<close>

text \<open>
  \<^verbatim>\<open>GLOBALS["botch_separate"]\<close>, the macro that the module builds by itself (\<^verbatim>\<open>roll\<close> and
  \<^verbatim>\<open>rolltemplate\<close> come from \<^verbatim>\<open>helpers.py\<close>): a query with one option for each \<open>n\<close> of
  \<^verbatim>\<open>range(1, 9)\<close>, namely \<open>n\<close>, \<^verbatim>\<open>Die\<close> or \<^verbatim>\<open>Dice\<close>, a comma and \<open>n\<close> dice joined by blanks.
\<close>

definition botch_option :: "int \<Rightarrow> string" where
  "botch_option n =
     str_int n @ '' '' @ (if n = 1 then ''Die'' else ''Dice'') @ '',''
     @ join '' '' (replicate (nat n) ''[[1d10cf10cs0]]'')"

definition botch_separate :: string where
  "botch_separate =
     ''&{template:botch} {{roll= ''
     @ (''?{@'' @ ''{botch_num_i18n} | '' @ join ''|'' (map botch_option [1 .. 8]) @ ''}'')
     @ '' }} {{type=Grouped}}''"

section \<open>The documentation\<close>

text \<open>
  \<^verbatim>\<open>markdown.markdown\<close> and \<^verbatim>\<open>BeautifulSoup\<close> are libraries; the parsed document they
  return is a list of nodes here. An attribute value is a string, or a list of strings for
  the multi-valued attributes such as \<^verbatim>\<open>class\<close> that the parser splits.
\<close>

datatype attr_value = AttrStr string | AttrList "string list"

datatype html = Tag string "(string \<times> attr_value) list" "html list" | NavigableString string

text \<open>\<^verbatim>\<open>tag.attrs["class"] = tag.get("class", "") + " heading_label"\<close>: a list cannot be
  concatenated with a string.\<close>

definition add_heading_label ::
  "(string \<times> attr_value) list \<Rightarrow> error + (string \<times> attr_value) list" where
  \<open>add_heading_label attrs =
     (case map_of attrs ''class'' of
        None \<Rightarrow> Inr (attrs @ [(''class'', AttrStr ([] @ '' heading_label''))])
      | Some (AttrStr s) \<Rightarrow> Inr (AList.update ''class'' (AttrStr (s @ '' heading_label'')) attrs)
      | Some (AttrList l) \<Rightarrow>
          Inl (TypeError ''can only concatenate list (not "str") to list''))\<close>

text \<open>\<^verbatim>\<open>for tag in html.find_all(name)\<close>: every tag of that name, at any depth.\<close>

fun label_tag :: "string \<Rightarrow> html \<Rightarrow> error + html"
  and label_tags :: "string \<Rightarrow> html list \<Rightarrow> error + html list" where
  "label_tag name (NavigableString s) = Inr (NavigableString s)"
| "label_tag name (Tag n attrs children) =
     (case (if n = name then add_heading_label attrs else Inr attrs) of
        Inl e \<Rightarrow> Inl e
      | Inr attrs' \<Rightarrow>
          (case label_tags name children of
             Inl e \<Rightarrow> Inl e
           | Inr children' \<Rightarrow> Inr (Tag n attrs' children')))"
| "label_tags name [] = Inr []"
| "label_tags name (t # ts) =
     (case label_tag name t of
        Inl e \<Rightarrow> Inl e
      | Inr t' \<Rightarrow>
          (case label_tags name ts of
             Inl e \<Rightarrow> Inl e
           | Inr ts' \<Rightarrow> Inr (t' # ts')))"

text \<open>\<^verbatim>\<open>for i in range(1, 10)\<close> over the names \<^verbatim>\<open>h1\<close> to \<^verbatim>\<open>h9\<close>.\<close>

fun label_headings :: "int list \<Rightarrow> html list \<Rightarrow> error + html list" where
  "label_headings [] doc = Inr doc"
| "label_headings (i # rest) doc =
     (case label_tags (CHR ''h'' # str_int i) doc of
        Inl e \<Rightarrow> Inl e
      | Inr doc' \<Rightarrow> label_headings rest doc')"

text \<open>The tree behind \<^verbatim>\<open>GLOBALS["documentation"]\<close>, before \<^verbatim>\<open>prettify\<close>; \<open>md\<close> is the
  conversion of the text of \<^verbatim>\<open>documentation.md\<close> by the two libraries.\<close>

definition documentation :: "(string \<Rightarrow> html list) \<Rightarrow> string \<Rightarrow> error + html list" where
  "documentation md text = label_headings [1 .. 9] (md text)"

section \<open>The operations and the state\<close>




section \<open>Evaluation on concrete inputs\<close>

lemma bitlen_0: "bitlen 0 = 0"
  by (simp add: bitlen.simps)

lemma bitlen_1: "bitlen (Suc 0) = Suc 0"
  by (simp add: bitlen.simps)

lemma bitlen_numeral: "bitlen (numeral k) = Suc (bitlen (numeral k div 2))"
  by (subst bitlen.simps) simp

lemmas fl_eval = fl_def ilog2_def round_half_even_def pow2_def bitlen_0 bitlen_1 bitlen_numeral
  Let_def fadd_def fmul_def int_truediv_def

lemmas luma_eval = luma_rgb_def luma_def channel_def py_int16_def lstrip_def skip_sign_def
  skip_prefix16_def hex_digit_def py_isspace_def

lemmas css_eval = custom_rt_color_css_def color_rules_def lines_header_def lines_rolls_def
  lines_buttons_def nl_def

lemma luma_white: "luma \<lparr>color = ''white'', hex = ''#FFFFFF''\<rparr> = Inr 1"
  by (simp add: luma_eval fl_eval)

lemma luma_black: "luma \<lparr>color = ''black'', hex = ''#000000''\<rparr> = Inr 0"
  by (simp add: luma_eval fl_eval)

lemma luma_blue: "luma \<lparr>color = ''blue'', hex = ''#2F8FD3''\<rparr> = Inr (1 / 2)"
  by (simp add: luma_eval fl_eval)

section \<open>The colour rules\<close>

lemma color_rules_length: "color_rules cd = Inr rules \<Longrightarrow> length rules = 3"
  by (auto simp: color_rules_def Let_def split: sum.splits)

lemma color_rules_luma:
  "luma cd = Inr l \<Longrightarrow>
   color_rules cd = Inr
     [join [nl] (lines_header cd
        @ (if 1 / 2 < l then [''    --header-text-color: #000;''] else []) @ [''}'']),
      join [nl] (lines_rolls cd
        @ (if l < 1 / 2 then [''    --roll-text-color: #FFF;''] else []) @ [''}'']),
      join [nl] (lines_buttons cd
        @ (if 1 / 2 < l then [''    --button-text-color: #000;''] else []) @ [''}''])]"
  by (simp add: color_rules_def)


lemma css_rules_loop_acc:
  "css_rules_loop reader acc = Inr rs \<Longrightarrow>
   \<exists>bs. list_all2 (\<lambda>cd b. color_rules cd = Inr b) reader bs \<and> rs = acc @ concat bs"
proof (induction reader arbitrary: acc)
  case Nil
  then show ?case by simp
next
  case (Cons cd reader)
  from Cons.prems obtain rules where r: "color_rules cd = Inr rules"
    and l: "css_rules_loop reader (acc @ rules) = Inr rs"
    by (auto split: sum.splits)
  from Cons.IH [OF l] obtain bs where
    "list_all2 (\<lambda>cd b. color_rules cd = Inr b) reader bs" "rs = (acc @ rules) @ concat bs"
    by blast
  with r have "list_all2 (\<lambda>cd b. color_rules cd = Inr b) (cd # reader) (rules # bs)
      \<and> rs = acc @ concat (rules # bs)"
    by simp
  then show ?case by blast
qed

lemma concat_blocks3:
  "\<forall>b \<in> set bs. length b = 3 \<Longrightarrow> i < length bs \<Longrightarrow>
   take 3 (drop (3 * i) (concat bs)) = bs ! i \<and> length (concat bs) = 3 * length bs"
proof (induction bs arbitrary: i)
  case Nil
  then show ?case by simp
next
  case (Cons b bs)
  show ?case
  proof (cases i)
    case 0
    with Cons.prems show ?thesis
      using Cons.IH [of 0] by (cases bs) auto
  next
    case (Suc j)
    with Cons.prems
    have "take 3 (drop (3 * j) (concat bs)) = bs ! j \<and> length (concat bs) = 3 * length bs"
      using Cons.IH [of j] by simp
    with Suc Cons.prems show ?thesis by simp
  qed
qed

lemma css_rules_loop_row:
  assumes "css_rules_loop reader [] = Inr rs" and "i < length reader"
  shows "color_rules (reader ! i) = Inr (take 3 (drop (3 * i) rs))"
    and "length rs = 3 * length reader"
proof -
  from css_rules_loop_acc [OF assms(1)] obtain bs where
    bs: "list_all2 (\<lambda>cd b. color_rules cd = Inr b) reader bs" and rs: "rs = concat bs"
    by auto
  from bs have len: "length bs = length reader"
    by (simp add: list_all2_lengthD)
  have each: "color_rules (reader ! k) = Inr (bs ! k)" if "k < length reader" for k
    using list_all2_nthD [OF bs that] by simp
  have "\<forall>b \<in> set bs. length b = 3"
  proof
    fix b assume "b \<in> set bs"
    then obtain k where "k < length bs" "bs ! k = b"
      by (auto simp: in_set_conv_nth)
    with each len show "length b = 3"
      using color_rules_length by metis
  qed
  with assms(2) len
  have "take 3 (drop (3 * i) (concat bs)) = bs ! i \<and> length (concat bs) = 3 * length bs"
    using concat_blocks3 by metis
  with each [OF assms(2)] rs len
  show "color_rules (reader ! i) = Inr (take 3 (drop (3 * i) rs))"
    and "length rs = 3 * length reader" by simp_all
qed

lemma custom_css_of_loop:
  "css_rules_loop reader [] = Inr css_rules \<Longrightarrow>
   custom_rt_color_css reader = Inr (join [nl] css_rules)"
  by (simp add: custom_rt_color_css_def)

text \<open>
  C6. With no colour row in the table, the generated CSS is the empty string.
\<close>

theorem css_no_colors_empty: "custom_rt_color_css [] = Inr []"
  by (simp add: custom_rt_color_css_def)






text \<open>
  C1, as the code has it. The text colour is chosen per role, not uniformly: for a luma
  above 0.5 the header block and the button block get black text and the roll block gets
  no text colour; for a luma below 0.5 the roll block gets white text and the header block
  and the button block get no text colour.
\<close>

theorem css_text_color_by_role:
  assumes "css_rules_loop reader [] = Inr css_rules"
    and "i < length reader"
    and "luma (reader ! i) = Inr l"
  shows "(1 / 2 < l \<longrightarrow>
           take 3 (drop (3 * i) css_rules) =
             [join [nl] (lines_header (reader ! i) @ [''    --header-text-color: #000;'', ''}'']),
              join [nl] (lines_rolls (reader ! i) @ [''}'']),
              join [nl] (lines_buttons (reader ! i) @ [''    --button-text-color: #000;'', ''}''])])
       \<and> (l < 1 / 2 \<longrightarrow>
           take 3 (drop (3 * i) css_rules) =
             [join [nl] (lines_header (reader ! i) @ [''}'']),
              join [nl] (lines_rolls (reader ! i) @ [''    --roll-text-color: #FFF;'', ''}'']),
              join [nl] (lines_buttons (reader ! i) @ [''}''])])"
proof -
  have "color_rules (reader ! i) = Inr (take 3 (drop (3 * i) css_rules))"
    using css_rules_loop_row(1) [OF assms(1,2)] .
  with color_rules_luma [OF assms(3)] show ?thesis by auto
qed

theorem css_text_color_by_role_witness:
  "(css_rules_loop [\<lparr>color = ''white'', hex = ''#FFFFFF''\<rparr>] [] = Inr
     [''.sheet-rolltemplate-custom .sheet-crt-container.sheet-crt-color-white {'' @ [CHR 0x0A] @ ''    --header-bg-color: #FFFFFF;'' @ [CHR 0x0A] @ ''    --header-text-color: #000;'' @ [CHR 0x0A] @ ''}'',
      ''.sheet-rolltemplate-custom .sheet-crt-container.sheet-crt-rlcolor-white .inlinerollresult {'' @ [CHR 0x0A] @ ''    --roll-bg-color: #FFFFFF;'' @ [CHR 0x0A] @ ''}'',
      ''.sheet-rolltemplate-custom .sheet-crt-container.sheet-crt-btcolor-white a {'' @ [CHR 0x0A] @ ''    --button-bg-color: #FFFFFF;'' @ [CHR 0x0A] @ ''    --button-text-color: #000;'' @ [CHR 0x0A] @ ''}'']
    \<and> luma ([\<lparr>color = ''white'', hex = ''#FFFFFF''\<rparr>] ! 0) = Inr 1 \<and> (1 / 2 < (1 :: real)))
   \<and> (css_rules_loop [\<lparr>color = ''black'', hex = ''#000000''\<rparr>] [] = Inr
     [''.sheet-rolltemplate-custom .sheet-crt-container.sheet-crt-color-black {'' @ [CHR 0x0A] @ ''    --header-bg-color: #000000;'' @ [CHR 0x0A] @ ''}'',
      ''.sheet-rolltemplate-custom .sheet-crt-container.sheet-crt-rlcolor-black .inlinerollresult {'' @ [CHR 0x0A] @ ''    --roll-bg-color: #000000;'' @ [CHR 0x0A] @ ''    --roll-text-color: #FFF;'' @ [CHR 0x0A] @ ''}'',
      ''.sheet-rolltemplate-custom .sheet-crt-container.sheet-crt-btcolor-black a {'' @ [CHR 0x0A] @ ''    --button-bg-color: #000000;'' @ [CHR 0x0A] @ ''}'']
    \<and> luma ([\<lparr>color = ''black'', hex = ''#000000''\<rparr>] ! 0) = Inr 0 \<and> ((0 :: real) < 1 / 2))"
proof -
  let ?W = "[\<lparr>color = ''white'', hex = ''#FFFFFF''\<rparr>]"
  let ?B = "[\<lparr>color = ''black'', hex = ''#000000''\<rparr>]"
  have cw: "css_rules_loop ?W [] = Inr
     [''.sheet-rolltemplate-custom .sheet-crt-container.sheet-crt-color-white {'' @ [CHR 0x0A] @ ''    --header-bg-color: #FFFFFF;'' @ [CHR 0x0A] @ ''    --header-text-color: #000;'' @ [CHR 0x0A] @ ''}'',
      ''.sheet-rolltemplate-custom .sheet-crt-container.sheet-crt-rlcolor-white .inlinerollresult {'' @ [CHR 0x0A] @ ''    --roll-bg-color: #FFFFFF;'' @ [CHR 0x0A] @ ''}'',
      ''.sheet-rolltemplate-custom .sheet-crt-container.sheet-crt-btcolor-white a {'' @ [CHR 0x0A] @ ''    --button-bg-color: #FFFFFF;'' @ [CHR 0x0A] @ ''    --button-text-color: #000;'' @ [CHR 0x0A] @ ''}'']"
    by (simp add: luma_white css_eval)
  have cb: "css_rules_loop ?B [] = Inr
     [''.sheet-rolltemplate-custom .sheet-crt-container.sheet-crt-color-black {'' @ [CHR 0x0A] @ ''    --header-bg-color: #000000;'' @ [CHR 0x0A] @ ''}'',
      ''.sheet-rolltemplate-custom .sheet-crt-container.sheet-crt-rlcolor-black .inlinerollresult {'' @ [CHR 0x0A] @ ''    --roll-bg-color: #000000;'' @ [CHR 0x0A] @ ''    --roll-text-color: #FFF;'' @ [CHR 0x0A] @ ''}'',
      ''.sheet-rolltemplate-custom .sheet-crt-container.sheet-crt-btcolor-black a {'' @ [CHR 0x0A] @ ''    --button-bg-color: #000000;'' @ [CHR 0x0A] @ ''}'']"
    by (simp add: luma_black css_eval)
  have lw: "luma (?W ! 0) = Inr 1" and lb: "luma (?B ! 0) = Inr 0"
    by (simp_all add: luma_white luma_black)
  have iw: "0 < length ?W" and ib: "0 < length ?B"
    by simp_all
  from css_text_color_by_role [OF cw iw lw] css_text_color_by_role [OF cb ib lb] cw cb lw lb
  show ?thesis by simp
qed

text \<open>
  C1, as stated, fails: white has luma 1, above 0.5, and its roll block carries no text
  colour at all; black has luma 0, below 0.5, and its header and button blocks carry none.
\<close>

theorem css_text_color_uniform_counterexample:
  "luma \<lparr>color = ''white'', hex = ''#FFFFFF''\<rparr> = Inr 1
   \<and> custom_rt_color_css [\<lparr>color = ''white'', hex = ''#FFFFFF''\<rparr>] = Inr (join [nl]
     [''.sheet-rolltemplate-custom .sheet-crt-container.sheet-crt-color-white {'' @ [CHR 0x0A] @ ''    --header-bg-color: #FFFFFF;'' @ [CHR 0x0A] @ ''    --header-text-color: #000;'' @ [CHR 0x0A] @ ''}'',
      ''.sheet-rolltemplate-custom .sheet-crt-container.sheet-crt-rlcolor-white .inlinerollresult {'' @ [CHR 0x0A] @ ''    --roll-bg-color: #FFFFFF;'' @ [CHR 0x0A] @ ''}'',
      ''.sheet-rolltemplate-custom .sheet-crt-container.sheet-crt-btcolor-white a {'' @ [CHR 0x0A] @ ''    --button-bg-color: #FFFFFF;'' @ [CHR 0x0A] @ ''    --button-text-color: #000;'' @ [CHR 0x0A] @ ''}''])
   \<and> luma \<lparr>color = ''black'', hex = ''#000000''\<rparr> = Inr 0
   \<and> custom_rt_color_css [\<lparr>color = ''black'', hex = ''#000000''\<rparr>] = Inr (join [nl]
     [''.sheet-rolltemplate-custom .sheet-crt-container.sheet-crt-color-black {'' @ [CHR 0x0A] @ ''    --header-bg-color: #000000;'' @ [CHR 0x0A] @ ''}'',
      ''.sheet-rolltemplate-custom .sheet-crt-container.sheet-crt-rlcolor-black .inlinerollresult {'' @ [CHR 0x0A] @ ''    --roll-bg-color: #000000;'' @ [CHR 0x0A] @ ''    --roll-text-color: #FFF;'' @ [CHR 0x0A] @ ''}'',
      ''.sheet-rolltemplate-custom .sheet-crt-container.sheet-crt-btcolor-black a {'' @ [CHR 0x0A] @ ''    --button-bg-color: #000000;'' @ [CHR 0x0A] @ ''}''])"
  by (simp add: luma_white luma_black css_eval)

text \<open>
  C10. A row whose luma is exactly 0.5 gets no text colour: each of its three blocks is
  the selector line, the background property and the closing brace.
\<close>

theorem css_luma_half_no_text_color:
  assumes "css_rules_loop reader [] = Inr css_rules"
    and "i < length reader"
    and "luma (reader ! i) = Inr (1 / 2)"
  shows "custom_rt_color_css reader = Inr (join [nl] css_rules) \<and>
         take 3 (drop (3 * i) css_rules) =
           [join [nl] (lines_header (reader ! i) @ [''}'']),
            join [nl] (lines_rolls (reader ! i) @ [''}'']),
            join [nl] (lines_buttons (reader ! i) @ [''}''])]"
proof -
  have "color_rules (reader ! i) = Inr (take 3 (drop (3 * i) css_rules))"
    using css_rules_loop_row(1) [OF assms(1,2)] .
  with color_rules_luma [OF assms(3)] custom_css_of_loop [OF assms(1)]
  show ?thesis by simp
qed

theorem css_luma_half_no_text_color_witness:
  "css_rules_loop [\<lparr>color = ''blue'', hex = ''#2F8FD3''\<rparr>] [] = Inr
     [''.sheet-rolltemplate-custom .sheet-crt-container.sheet-crt-color-blue {'' @ [CHR 0x0A] @ ''    --header-bg-color: #2F8FD3;'' @ [CHR 0x0A] @ ''}'',
      ''.sheet-rolltemplate-custom .sheet-crt-container.sheet-crt-rlcolor-blue .inlinerollresult {'' @ [CHR 0x0A] @ ''    --roll-bg-color: #2F8FD3;'' @ [CHR 0x0A] @ ''}'',
      ''.sheet-rolltemplate-custom .sheet-crt-container.sheet-crt-btcolor-blue a {'' @ [CHR 0x0A] @ ''    --button-bg-color: #2F8FD3;'' @ [CHR 0x0A] @ ''}'']
   \<and> luma ([\<lparr>color = ''blue'', hex = ''#2F8FD3''\<rparr>] ! 0) = Inr (1 / 2)
   \<and> custom_rt_color_css [\<lparr>color = ''blue'', hex = ''#2F8FD3''\<rparr>] = Inr (join [nl]
     [''.sheet-rolltemplate-custom .sheet-crt-container.sheet-crt-color-blue {'' @ [CHR 0x0A] @ ''    --header-bg-color: #2F8FD3;'' @ [CHR 0x0A] @ ''}'',
      ''.sheet-rolltemplate-custom .sheet-crt-container.sheet-crt-rlcolor-blue .inlinerollresult {'' @ [CHR 0x0A] @ ''    --roll-bg-color: #2F8FD3;'' @ [CHR 0x0A] @ ''}'',
      ''.sheet-rolltemplate-custom .sheet-crt-container.sheet-crt-btcolor-blue a {'' @ [CHR 0x0A] @ ''    --button-bg-color: #2F8FD3;'' @ [CHR 0x0A] @ ''}''])"
proof -
  let ?R = "[\<lparr>color = ''blue'', hex = ''#2F8FD3''\<rparr>]"
  have l: "luma (?R ! 0) = Inr (1 / 2)"
    by (simp add: luma_blue)
  have c: "css_rules_loop ?R [] = Inr
     [''.sheet-rolltemplate-custom .sheet-crt-container.sheet-crt-color-blue {'' @ [CHR 0x0A] @ ''    --header-bg-color: #2F8FD3;'' @ [CHR 0x0A] @ ''}'',
      ''.sheet-rolltemplate-custom .sheet-crt-container.sheet-crt-rlcolor-blue .inlinerollresult {'' @ [CHR 0x0A] @ ''    --roll-bg-color: #2F8FD3;'' @ [CHR 0x0A] @ ''}'',
      ''.sheet-rolltemplate-custom .sheet-crt-container.sheet-crt-btcolor-blue a {'' @ [CHR 0x0A] @ ''    --button-bg-color: #2F8FD3;'' @ [CHR 0x0A] @ ''}'']"
    by (simp add: luma_blue css_eval)
  have i: "0 < length ?R"
    by simp
  from css_luma_half_no_text_color [OF c i l] c l show ?thesis
    by simp
qed

section \<open>Lines and margins\<close>

lemma split_nl_line:
  "nl \<notin> set l \<Longrightarrow> split_nl (l @ nl # rest) = l # split_nl rest"
  by (induction l) (auto split: list.splits)

lemma split_nl_last: "nl \<notin> set l \<Longrightarrow> split_nl l = [l]"
  by (induction l) (auto split: list.splits)

lemma split_nl_join:
  "ls \<noteq> [] \<Longrightarrow> \<forall>l \<in> set ls. nl \<notin> set l \<Longrightarrow> split_nl (join [nl] ls) = ls"
proof (induction "[nl]" ls rule: join.induct)
  case 1
  then show ?case by simp
next
  case (2 x)
  then show ?case by (simp add: split_nl_last)
next
  case (3 x y ys)
  then show ?case by (simp add: split_nl_line)
qed

lemma common_margin_prefix: "prefix (common_margin m i) m"
  by (induction m i rule: common_margin.induct) auto

lemma margin_step_prefix: "\<exists>m'. margin_step (Some m) i = Some m' \<and> prefix m' m"
  by (auto simp: margin_step_def common_margin_prefix)

lemma fold_margin_prefix:
  "\<exists>m'. fold (\<lambda>indent mg. margin_step mg indent) xs (Some m) = Some m' \<and> prefix m' m"
proof (induction xs arbitrary: m)
  case Nil
  then show ?case by simp
next
  case (Cons i xs)
  obtain m1 where m1: "margin_step (Some m) i = Some m1" "prefix m1 m"
    using margin_step_prefix by blast
  from Cons [of m1] obtain m' where
    "fold (\<lambda>indent mg. margin_step mg indent) xs (Some m1) = Some m'" "prefix m' m1"
    by blast
  with m1 show ?case
    by (auto intro: prefix_order.trans)
qed

lemma fold_margin_keep:
  "\<forall>i \<in> set xs. prefix m i \<Longrightarrow> fold (\<lambda>indent mg. margin_step mg indent) xs (Some m) = Some m"
  by (induction xs) (simp_all add: margin_step_def)

lemma takeWhile_join_first:
  "nl \<notin> set x \<Longrightarrow> takeWhile (\<lambda>c. c \<noteq> nl) (join [nl] (x # xs)) = x"
proof -
  assume n: "nl \<notin> set x"
  have t: "takeWhile (\<lambda>c. c \<noteq> nl) (x @ nl # r) = x" for r
    using n by (induction x) auto
  show ?thesis
  proof (cases xs)
    case Nil
    from n have "\<forall>c \<in> set x. c \<noteq> nl"
      by auto
    with Nil show ?thesis
      by (simp add: takeWhile_eq_all_conv)
  next
    case (Cons a list)
    with t show ?thesis by simp
  qed
qed

lemma dropWhile_drop_blank:
  "k \<le> length (takeWhile is_blank l) \<Longrightarrow> dropWhile is_blank (drop k l) = dropWhile is_blank l"
proof (induction l arbitrary: k)
  case Nil
  then show ?case by simp
next
  case (Cons c l)
  then show ?case
    by (cases k) (auto split: if_splits)
qed

text \<open>The first line of a dedented text is the first line of the text without some of its
  leading blanks, when that line holds something else than blanks.\<close>

lemma banner_name_dedent:
  assumes "nl \<notin> set l0" and "list_ex (\<lambda>c. \<not> is_blank c) l0"
  shows "banner_name (dedent (l0 @ nl # rest)) = dropWhile is_blank l0"
proof -
  let ?norm = "\<lambda>l. if l \<noteq> [] \<and> list_all is_blank l then [] else l"
  let ?ls = "map ?norm (split_nl rest)"
  let ?i0 = "takeWhile is_blank l0"
  let ?is = "map (takeWhile is_blank) (filter (list_ex (\<lambda>c. \<not> is_blank c)) ?ls)"
  from assms(2) have nb: "\<not> list_all is_blank l0"
    by (auto simp: list_all_iff list_ex_iff)
  have lines: "map ?norm (split_nl (l0 @ nl # rest)) = l0 # ?ls"
    using nb by (simp add: split_nl_line [OF assms(1)])
  have indents: "map (takeWhile is_blank) (filter (list_ex (\<lambda>c. \<not> is_blank c)) (l0 # ?ls))
      = ?i0 # ?is"
    using assms(2) by simp
  obtain m where m: "fold (\<lambda>indent mg. margin_step mg indent) ?is (Some ?i0) = Some m"
    and pm: "prefix m ?i0"
    using fold_margin_prefix by blast
  have margin: "fold (\<lambda>indent mg. margin_step mg indent) (?i0 # ?is) None = Some m"
    using m by (simp add: margin_step_def)
  from pm have pl: "prefix m l0"
    by (metis prefix_order.trans takeWhile_is_prefix)
  from pm have len: "length m \<le> length ?i0"
    by (rule prefix_length_le)
  have "\<exists>ys. dedent (l0 @ nl # rest) = join [nl] (drop (length m) l0 # ys)"
  proof (cases "m = []")
    case True
    then have "dedent (l0 @ nl # rest) = join [nl] (l0 # ?ls)"
      unfolding dedent_def lines Let_def indents margin by simp
    with True show ?thesis by auto
  next
    case False
    then have "dedent (l0 @ nl # rest)
        = join [nl] (map (\<lambda>l. if prefix m l then drop (length m) l else l) (l0 # ?ls))"
      unfolding dedent_def lines Let_def indents margin by simp
    with pl show ?thesis by auto
  qed
  then obtain ys where d: "dedent (l0 @ nl # rest) = join [nl] (drop (length m) l0 # ys)"
    by blast
  from assms(1) have "nl \<notin> set (drop (length m) l0)"
    by (meson in_set_dropD)
  then have "takeWhile (\<lambda>c. c \<noteq> nl) (dedent (l0 @ nl # rest)) = drop (length m) l0"
    unfolding d by (rule takeWhile_join_first)
  with len show ?thesis
    by (simp add: banner_name_def dropWhile_drop_blank)
qed

lemma join_Cons_nonempty: "ys \<noteq> [] \<Longrightarrow> join sep (x # ys) = x @ sep @ join sep ys"
  by (cases ys) simp_all

lemma with_commas_nonempty: "es \<noteq> [] \<Longrightarrow> with_commas ind es \<noteq> []"
  by (induction ind es rule: with_commas.induct) simp_all

lemma join_with_commas:
  "es \<noteq> [] \<Longrightarrow> ind @ join ('','' @ nl # ind) es = join [nl] (with_commas ind es)"
proof (induction ind es rule: with_commas.induct)
  case (1 ind)
  then show ?case by simp
next
  case (2 ind e)
  then show ?case by simp
next
  case (3 ind e e' es)
  have "with_commas ind (e' # es) \<noteq> []"
    by (rule with_commas_nonempty) simp
  with 3 show ?case
    by (simp add: join_Cons_nonempty)
qed

lemma with_commas_map: "with_commas ind es = map (\<lambda>l. ind @ l) (with_commas [] es)"
  by (induction ind es rule: with_commas.induct) simp_all

lemma with_commas_elems:
  "x \<in> set (with_commas ind es) \<Longrightarrow> \<exists>e \<in> set es. x = ind @ e \<or> x = ind @ e @ '',''"
  by (induction ind es rule: with_commas.induct) auto

lemma join_append:
  "xs \<noteq> [] \<Longrightarrow> ys \<noteq> [] \<Longrightarrow> join sep (xs @ ys) = join sep xs @ sep @ join sep ys"
proof (induction sep xs rule: join.induct)
  case (1 sep)
  then show ?case by simp
next
  case (2 sep x)
  then show ?case by (cases ys) simp_all
next
  case (3 sep x y ys')
  then show ?case by simp
qed

lemma prefix_blank_indent:
  "list_all is_blank m \<Longrightarrow> prefix m l \<Longrightarrow> prefix m (takeWhile is_blank l)"
proof -
  assume b: "list_all is_blank m" and p: "prefix m l"
  then obtain r where "l = m @ r"
    by (auto simp: prefix_def)
  with b show ?thesis
    by (simp add: list_all_iff takeWhile_append2)
qed

text \<open>A text of lines that all hold something else than blanks and all begin with the blanks
  that indent the first one loses exactly that margin.\<close>

lemma dedent_margin:
  assumes "\<forall>l \<in> set (l0 # rest). nl \<notin> set l"
    and "\<forall>l \<in> set (l0 # rest). list_ex (\<lambda>c. \<not> is_blank c) l"
    and "takeWhile is_blank l0 = m" and "m \<noteq> []"
    and "\<forall>l \<in> set (l0 # rest). prefix m l"
  shows "dedent (join [nl] (l0 # rest)) = join [nl] (map (drop (length m)) (l0 # rest))"
proof -
  let ?ls = "l0 # rest"
  have s: "split_nl (join [nl] ?ls) = ?ls"
    using assms(1) by (intro split_nl_join) simp_all
  have nb: "\<not> (l \<noteq> [] \<and> list_all is_blank l)" if "l \<in> set ?ls" for l
    using assms(2) that by (auto simp: list_all_iff list_ex_iff)
  then have norm: "map (\<lambda>l. if l \<noteq> [] \<and> list_all is_blank l then [] else l) ?ls = ?ls"
    by (intro map_idI) auto
  have f: "filter (list_ex (\<lambda>c. \<not> is_blank c)) ?ls = ?ls"
    using assms(2) by (intro filter_True) auto
  have mb: "list_all is_blank m"
    using assms(3) by (auto simp: list_all_iff dest: set_takeWhileD)
  have "\<forall>i \<in> set (map (takeWhile is_blank) rest). prefix m i"
    using assms(5) mb by (auto intro: prefix_blank_indent)
  then have "fold (\<lambda>indent mg. margin_step mg indent)
      (map (takeWhile is_blank) rest) (Some m) = Some m"
    by (rule fold_margin_keep)
  moreover have "margin_step None (takeWhile is_blank l0) = Some m"
    using assms(3) by (simp add: margin_step_def)
  ultimately have margin: "fold (\<lambda>indent mg. margin_step mg indent)
      (map (takeWhile is_blank) ?ls) None = Some m"
    by simp
  have strip: "map (\<lambda>l. if prefix m l then drop (length m) l else l) ?ls
      = map (drop (length m)) ?ls"
    using assms(5) by (intro map_cong) auto
  have "dedent (join [nl] ?ls)
      = join [nl] (map (\<lambda>l. if prefix m l then drop (length m) l else l) ?ls)"
    unfolding dedent_def s Let_def norm f margin using assms(4) by simp
  then show ?thesis
    unfolding strip .
qed

section \<open>The banners\<close>

lemma alert_ok:
  "level \<in> {''info'', ''warning''} \<Longrightarrow>
   alert title text level ID st =
     (Inr (dedent (alert_html (fmt_id (fst (assign_id ID st))) level title
        (str_replace [nl] (nl # replicate 16 (CHR '' '')) text))), snd (assign_id ID st))"
  by (auto simp: alert_def Let_def split: prod.splits)

lemma alert_bad:
  "level \<notin> {''info'', ''warning''} \<Longrightarrow>
   alert title text level ID st =
     (Inl (ValueError (''Level must be among '' @ [sq] @ ''info'' @ [sq] @ '', ''
                   @ [sq] @ ''warning'' @ [sq])), st)"
  by (simp add: alert_def)

text \<open>
  C3. A call of \<^verbatim>\<open>alert\<close> whose level is neither \<^verbatim>\<open>"info"\<close> nor \<^verbatim>\<open>"warning"\<close> raises
  \<^verbatim>\<open>ValueError("Level must be among 'info', 'warning'")\<close>, returns no banner, and leaves
  \<^verbatim>\<open>alert.numid\<close> and \<^verbatim>\<open>alert.strid\<close> as they were.
\<close>

theorem alert_rejects_bad_level:
  assumes "level \<notin> {''info'', ''warning''}"
  shows "alert title text level ID st =
     (Inl (ValueError (''Level must be among '' @ [sq] @ ''info'' @ [sq] @ '', ''
                   @ [sq] @ ''warning'' @ [sq])), st)"
  using assms by (rule alert_bad)

theorem alert_rejects_bad_level_witness:
  "''error'' \<notin> {''info'', ''warning''}
   \<and> alert ''Update'' ''Read this'' ''error'' None \<lparr>numid = 3, strid = [''intro'']\<rparr> =
     (Inl (ValueError (''Level must be among '' @ [sq] @ ''info'' @ [sq] @ '', ''
                   @ [sq] @ ''warning'' @ [sq])), \<lparr>numid = 3, strid = [''intro'']\<rparr>)"
proof -
  have l: "''error'' \<notin> {''info'', ''warning''}"
    by simp
  from alert_rejects_bad_level [OF l] l show ?thesis
    by blast
qed

subsection \<open>The identifier in the text of a banner\<close>

lemma alert_html_first:
  \<open>alert_html aid level title text =
     (''        <input type="hidden" class="alert-hidder" name="attr_alert-'' @ aid
       @ ''" value="0"/>'') @ nl #
     (''        <div class="alert alert-'' @ level @ ''">'' @ [nl]
     @ ''            <div>'' @ [nl]
     @ ''                <h3> '' @ str_title level @ '' - '' @ title @ ''</h3>'' @ [nl]
     @ ''                '' @ text @ [nl]
     @ ''            </div>'' @ [nl]
     @ ''            <label class="fakebutton">'' @ [nl]
     @ ''                <input type="checkbox" name="attr_alert-'' @ aid
       @ ''" value="1" /> '' @ [CHR 0xD7] @ [nl]
     @ ''            </label>'' @ [nl]
     @ ''        </div>'')\<close>
  by (simp add: alert_html_def)

lemma banner_name_alert:
  assumes "nl \<notin> set aid"
  shows \<open>banner_name (dedent (alert_html aid level title text))
       = ''<input type="hidden" class="alert-hidder" name="attr_alert-'' @ aid @ ''" value="0"/>''\<close>
proof -
  let ?l0 = \<open>''        <input type="hidden" class="alert-hidder" name="attr_alert-'' @ aid
       @ ''" value="0"/>''\<close>
  have n: "nl \<notin> set ?l0"
    using assms by (simp add: nl_def)
  have e: "list_ex (\<lambda>c. \<not> is_blank c) ?l0"
    by (simp add: is_blank_def)
  have "dropWhile is_blank ?l0
      = ''<input type=\"hidden\" class=\"alert-hidder\" name=\"attr_alert-'' @ aid @ ''\" value=\"0\"/>''"
    by (simp add: is_blank_def)
  with banner_name_dedent [OF n e] show ?thesis
    unfolding alert_html_first by simp
qed

lemma str_nat_digits:
  "c \<in> set (str_nat n) \<Longrightarrow> 48 \<le> (of_char c :: nat) \<and> (of_char c :: nat) \<le> 57"
proof (induction n rule: str_nat.induct)
  case (1 n)
  show ?case
  proof (cases "n < 10")
    case True
    with "1.prems" show ?thesis
      by (subst (asm) str_nat.simps) (auto simp: digit_char_def)
  next
    case False
    with "1.prems" have "c \<in> set (str_nat (n div 10)) \<or> c = digit_char (n mod 10)"
      by (subst (asm) str_nat.simps) auto
    then show ?thesis
    proof
      assume "c \<in> set (str_nat (n div 10))"
      with False "1.IH" show ?thesis by simp
    next
      assume "c = digit_char (n mod 10)"
      moreover have "n mod 10 < 10" by simp
      ultimately show ?thesis
        by (simp add: digit_char_def)
    qed
  qed
qed

lemma str_nat_nonempty: "str_nat n \<noteq> []"
  by (subst str_nat.simps) simp

lemma str_nat_no_special: "nl \<notin> set (str_nat n)" "CHR ''-'' \<notin> set (str_nat n)"
  using str_nat_digits [of nl n] str_nat_digits [of "CHR ''-''" n]
  by (auto simp: nl_def)

lemma str_int_no_nl: "nl \<notin> set (str_int i)"
  using str_nat_no_special(1) by (simp add: str_int_def nl_def)

lemma digits_value_str_nat: "digits_value (str_nat n) = n"
proof (induction n rule: str_nat.induct)
  case (1 n)
  show ?case
  proof (cases "n < 10")
    case True
    then show ?thesis
      by (subst str_nat.simps) (simp add: digits_value_def digit_char_def)
  next
    case False
    with "1" have "digits_value (str_nat (n div 10)) = n div 10" by simp
    with False show ?thesis
      by (subst str_nat.simps) (simp add: digits_value_def digit_char_def)
  qed
qed

lemma str_nat_inj: "str_nat n = str_nat m \<Longrightarrow> n = m"
  by (metis digits_value_str_nat)

lemma str_int_inj: "str_int a = str_int b \<Longrightarrow> a = b"
proof -
  assume e: "str_int a = str_int b"
  have hd_nat: "hd (str_nat n) \<noteq> CHR ''-''" for n
    using str_nat_no_special(2) [of n] str_nat_nonempty [of n] by (cases "str_nat n") auto
  show ?thesis
  proof (cases "a < 0"; cases "b < 0")
    assume "a < 0" "b < 0"
    with e have "nat (- a) = nat (- b)"
      by (auto simp: str_int_def dest: str_nat_inj)
    with \<open>a < 0\<close> \<open>b < 0\<close> show ?thesis by simp
  next
    assume "a < 0" "\<not> b < 0"
    with e hd_nat [of "nat b"] show ?thesis
      by (auto simp: str_int_def dest: arg_cong [where f = hd])
  next
    assume "\<not> a < 0" "b < 0"
    with e hd_nat [of "nat a"] show ?thesis
      by (auto simp: str_int_def dest: arg_cong [where f = hd])
  next
    assume "\<not> a < 0" "\<not> b < 0"
    with e have "nat a = nat b"
      by (auto simp: str_int_def dest: str_nat_inj)
    with \<open>\<not> a < 0\<close> \<open>\<not> b < 0\<close> show ?thesis by simp
  qed
qed

lemma banner_id_alert:
  assumes "nl \<notin> set aid"
  shows "banner_id (dedent (alert_html aid level title text)) = aid"
  by (simp add: banner_id_def banner_name_alert [OF assms])

subsection \<open>Operations run twice\<close>

text \<open>The text of the botch macro, written out.\<close>

lemma botch_separate_value:
  "botch_separate =
     ''&{template:botch} {{roll= ?{@'' @ ''{botch_num_i18n} | 1 Die,[[1d10cf10cs0]]|2 Dice,[[1d10cf10cs0]] [[1d10cf10cs0]]|3 Dice,[[1d10cf10cs0]] [[1d10cf10cs0]] [[1d10cf10cs0]]|4 Dice,[[1d10cf10cs0]] [[1d10cf10cs0]] [[1d10cf10cs0]] [[1d10cf10cs0]]|5 Dice,[[1d10cf10cs0]] [[1d10cf10cs0]] [[1d10cf10cs0]] [[1d10cf10cs0]] [[1d10cf10cs0]]|6 Dice,[[1d10cf10cs0]] [[1d10cf10cs0]] [[1d10cf10cs0]] [[1d10cf10cs0]] [[1d10cf10cs0]] [[1d10cf10cs0]]|7 Dice,[[1d10cf10cs0]] [[1d10cf10cs0]] [[1d10cf10cs0]] [[1d10cf10cs0]] [[1d10cf10cs0]] [[1d10cf10cs0]] [[1d10cf10cs0]]|8 Dice,[[1d10cf10cs0]] [[1d10cf10cs0]] [[1d10cf10cs0]] [[1d10cf10cs0]] [[1d10cf10cs0]] [[1d10cf10cs0]] [[1d10cf10cs0]] [[1d10cf10cs0]]} }} {{type=Grouped}}''"
  by code_simp






subsection \<open>The text of \<^verbatim>\<open>disable_old_alerts\<close>\<close>

lemma alert_entry_shape:
  assumes "nl \<notin> set (fmt_id i)"
  shows "nl \<notin> set (alert_entry i)" and "list_ex (\<lambda>c. \<not> is_blank c) (alert_entry i)"
  using assms by (simp_all add: alert_entry_def nl_def is_blank_def)

lemma disable_old_alerts_empty:
  assumes "nl \<notin> set marker" and "alert_ids st = []"
  shows \<open>disable_old_alerts marker st =
     ''setAttrs({'' @ [nl] @ ''    "'' @ marker @ ''": 1,'' @ [nl] @ [nl] @ ''}); ''\<close>
proof -
  let ?ls = \<open>[''        setAttrs({'', ''            "'' @ marker @ ''": 1,'', ''            '',
              ''        }); '']\<close>
  have t: \<open>''        setAttrs({'' @ [nl]
            @ ''            "'' @ marker @ ''": 1,'' @ [nl]
            @ ''            '' @ [] @ [nl]
            @ ''        }); '' = join [nl] ?ls\<close>
    by simp
  have "\<forall>l \<in> set ?ls. nl \<notin> set l"
    using assms(1) by (simp add: nl_def)
  then have s: "split_nl (join [nl] ?ls) = ?ls"
    by (intro split_nl_join) simp_all
  have "dedent (join [nl] ?ls)
      = ''setAttrs({'' @ [nl] @ ''    \"'' @ marker @ ''\": 1,'' @ [nl] @ [nl] @ ''}); ''"
    unfolding dedent_def s
    by (simp add: is_blank_def margin_step_def Let_def)
  with assms(2) show ?thesis
    unfolding disable_old_alerts_def Let_def by (simp only: t list.map join.simps)
qed

lemma disable_old_alerts_entries:
  assumes "nl \<notin> set marker" and "\<forall>i \<in> set (alert_ids st). nl \<notin> set (fmt_id i)"
    and "alert_ids st \<noteq> []"
  shows \<open>disable_old_alerts marker st =
     ''setAttrs({'' @ [nl] @ ''    "'' @ marker @ ''": 1,'' @ [nl]
     @ ''    '' @ join ('','' @ nl # ''    '') (map alert_entry (alert_ids st)) @ [nl] @ ''}); ''\<close>
proof -
  let ?es = "map alert_entry (alert_ids st)"
  let ?xs = "with_commas [] ?es"
  let ?l0 = "''        setAttrs({''"
  let ?l1 = \<open>''            "'' @ marker @ ''": 1,''\<close>
  let ?le = "''        }); ''"
  let ?rest = "?l1 # map (\<lambda>l. ''            '' @ l) ?xs @ [?le]"
  from assms(3) have ne: "?es \<noteq> []"
    by simp
  have xs: "nl \<notin> set x \<and> list_ex (\<lambda>c. \<not> is_blank c) x" if "x \<in> set ?xs" for x
  proof -
    from with_commas_elems [OF that] obtain i where i: "i \<in> set (alert_ids st)"
      and x: "x = alert_entry i \<or> x = alert_entry i @ '',''"
      by auto
    from assms(2) i alert_entry_shape [of i] x show ?thesis
      by (auto simp: nl_def)
  qed
  have tmpl: \<open>''        setAttrs({'' @ [nl]
            @ ''            "'' @ marker @ ''": 1,'' @ [nl]
            @ ''            '' @ join ('','' @ nl # replicate (4 * 3) (CHR '' '')) ?es @ [nl]
            @ ''        }); '' = join [nl] (?l0 # ?rest)\<close>
  proof -
    have r: "replicate (4 * 3) (CHR '' '') = ''            ''"
      by (simp add: numeral_eq_Suc)
    have "''            '' @ join ('','' @ nl # ''            '') ?es
        = join [nl] (map (\<lambda>l. ''            '' @ l) ?xs)"
      using join_with_commas [OF ne] with_commas_map [of "''            ''" ?es] by simp
    moreover have "map (\<lambda>l. ''            '' @ l) ?xs \<noteq> []"
      using with_commas_nonempty [OF ne, of "[]"] by simp
    ultimately show ?thesis
      unfolding r by (simp add: join_Cons_nonempty join_append)
  qed
  have a1: "\<forall>l \<in> set (?l0 # ?rest). nl \<notin> set l"
    using assms(1) xs by (auto simp: nl_def)
  have a2: "\<forall>l \<in> set (?l0 # ?rest). list_ex (\<lambda>c. \<not> is_blank c) l"
    using xs by (auto simp: is_blank_def)
  have a3: "takeWhile is_blank ?l0 = ''        ''"
    by (simp add: is_blank_def)
  have a5: "\<forall>l \<in> set (?l0 # ?rest). prefix ''        '' l"
    by auto
  have a4: "''        '' \<noteq> []"
    by simp
  have "dedent (join [nl] (?l0 # ?rest))
      = join [nl] (map (drop (length ''        '')) (?l0 # ?rest))"
    by (rule dedent_margin [OF a1 a2 a3 a4 a5])
  also have "map (drop (length ''        '')) (?l0 # ?rest)
      = ''setAttrs({'' # (''    \"'' @ marker @ ''\": 1,'') # map (\<lambda>l. ''    '' @ l) ?xs @ [''}); '']"
    by simp
  also have "join [nl] \<dots> = ''setAttrs({'' @ [nl] @ ''    \"'' @ marker @ ''\": 1,'' @ [nl]
     @ join [nl] (map (\<lambda>l. ''    '' @ l) ?xs) @ [nl] @ ''}); ''"
    using with_commas_nonempty [OF ne, of "[]"] by (simp add: join_Cons_nonempty join_append)
  also have "join [nl] (map (\<lambda>l. ''    '' @ l) ?xs) = ''    '' @ join ('','' @ nl # ''    '') ?es"
    using join_with_commas [OF ne, of "''    ''"] with_commas_map [of "''    ''" ?es] by simp
  finally have d: "dedent (join [nl] (?l0 # ?rest)) = ''setAttrs({'' @ [nl]
     @ ''    \"'' @ marker @ ''\": 1,'' @ [nl]
     @ (''    '' @ join ('','' @ nl # ''    '') ?es) @ [nl] @ ''}); ''" .
  show ?thesis
    unfolding disable_old_alerts_def Let_def tmpl d by simp
qed

lemma join_indent:
  "es \<noteq> [] \<Longrightarrow> ind @ join ('','' @ nl # ind) es = join ('','' @ [nl]) (map ((@) ind) es)"
proof (induction es)
  case Nil
  then show ?case by simp
next
  case (Cons e es)
  then show ?case
    by (cases es) simp_all
qed

lemma disable_old_alerts_text:
  assumes "nl \<notin> set marker" and "\<forall>i \<in> set (alert_ids st). nl \<notin> set (fmt_id i)"
  shows \<open>disable_old_alerts marker st =
     ''setAttrs({'' @ [nl] @ ''    "'' @ marker @ ''": 1,'' @ [nl]
     @ join ('','' @ [nl]) (map ((@) ''    '') (map alert_entry (alert_ids st)))
     @ [nl] @ ''}); ''\<close>
proof (cases "alert_ids st = []")
  case True
  with disable_old_alerts_empty [OF assms(1) True] show ?thesis
    by simp
next
  case False
  then have "map alert_entry (alert_ids st) \<noteq> []"
    by simp
  from join_indent [OF this, of "''    ''"] disable_old_alerts_entries [OF assms False]
  show ?thesis
    by simp
qed

subsection \<open>Runs of calls\<close>

lemma run_alerts_Cons:
  assumes "run_alerts ((title, text, level, ID) # calls) st = Some (bs, st'')"
  shows "\<exists>bs'. bs = (fst (assign_id ID st),
             dedent (alert_html (fmt_id (fst (assign_id ID st))) level title
               (str_replace [nl] (nl # replicate 16 (CHR '' '')) text))) # bs'
     \<and> run_alerts calls (snd (assign_id ID st)) = Some (bs', st'')"
proof (cases "level \<in> {''info'', ''warning''}")
  case True
  with alert_ok [OF True] assms show ?thesis
    by (auto split: option.splits)
next
  case False
  with alert_bad [OF False, of title "text" ID st] assms show ?thesis
    by (auto split: prod.splits sum.splits)
qed

lemma run_alerts_state:
  "run_alerts calls st = Some (bs, st') \<Longrightarrow> 0 \<le> numid st \<Longrightarrow>
   numid st \<le> numid st' \<and>
   strid st' = strid st @ explicit_ids calls \<and>
   mset (map fst bs) = mset (map NumId [numid st .. numid st' - 1])
     + mset (map StrId (explicit_ids calls))"
proof (induction calls arbitrary: st bs)
  case Nil
  then show ?case by simp
next
  case (Cons c calls)
  obtain t x level ID where c: "c = (t, x, level, ID)"
    by (cases c) auto
  from Cons.prems(1) c obtain b bs' where ids: "bs = (fst (assign_id ID st), b) # bs'"
    and run: "run_alerts calls (snd (assign_id ID st)) = Some (bs', st')"
    using run_alerts_Cons by blast
  show ?case
  proof (cases ID)
    case None
    then have a: "assign_id ID st = (NumId (numid st), st\<lparr>numid := numid st + 1\<rparr>)"
      by (simp add: assign_id_def)
    from Cons.IH [OF run] a Cons.prems(2)
    have ih: "numid st + 1 \<le> numid st'"
      "strid st' = strid st @ explicit_ids calls"
      "mset (map fst bs') = mset (map NumId [numid st + 1 .. numid st' - 1])
         + mset (map StrId (explicit_ids calls))"
      by simp_all
    from ih(1) have "[numid st .. numid st' - 1] = numid st # [numid st + 1 .. numid st' - 1]"
      by (simp add: upto_rec1)
    with ih ids a c None show ?thesis by simp
  next
    case (Some i)
    then have a: "assign_id ID st = (StrId i, st\<lparr>strid := strid st @ [i]\<rparr>)"
      by (simp add: assign_id_def)
    from Cons.IH [OF run] a Cons.prems(2)
    have ih: "numid st \<le> numid st'"
      "strid st' = strid st @ [i] @ explicit_ids calls"
      "mset (map fst bs') = mset (map NumId [numid st .. numid st' - 1])
         + mset (map StrId (explicit_ids calls))"
      by simp_all
    with ids a c Some show ?thesis by simp
  qed
qed

text \<open>Every banner of a run carries, on its first line, the identifier it was given.\<close>

lemma run_alerts_banner_id:
  "run_alerts calls st = Some (bs, st') \<Longrightarrow> (i, b) \<in> set bs \<Longrightarrow> nl \<notin> set (fmt_id i) \<Longrightarrow>
   banner_id b = fmt_id i"
proof (induction calls arbitrary: st bs)
  case Nil
  then show ?case by simp
next
  case (Cons c calls)
  obtain t x level ID where c: "c = (t, x, level, ID)"
    by (cases c) auto
  from Cons.prems(1) c obtain bs' where
    bs: "bs = (fst (assign_id ID st),
             dedent (alert_html (fmt_id (fst (assign_id ID st))) level t
               (str_replace [nl] (nl # replicate 16 (CHR '' '')) x))) # bs'"
    and run: "run_alerts calls (snd (assign_id ID st)) = Some (bs', st')"
    using run_alerts_Cons by blast
  show ?case
  proof (cases "(i, b) \<in> set bs'")
    case True
    from Cons.IH [OF run True Cons.prems(3)] show ?thesis .
  next
    case False
    with Cons.prems(2) bs have "i = fst (assign_id ID st)"
      and "b = dedent (alert_html (fmt_id i) level t
               (str_replace [nl] (nl # replicate 16 (CHR '' '')) x))"
      by auto
    with Cons.prems(3) show ?thesis
      by (simp add: banner_id_alert)
  qed
qed

lemma alert_entry_inj: "alert_entry a = alert_entry b \<Longrightarrow> fmt_id a = fmt_id b"
  by (simp add: alert_entry_def)

lemma distinct_alert_entries:
  "distinct (map fmt_id xs) \<Longrightarrow> distinct (map alert_entry xs)"
  by (induction xs) (auto dest: alert_entry_inj)

lemma distinct_str_int_upto: "distinct (map str_int [a .. b])"
proof -
  have "inj_on str_int (set [a .. b])"
    by (rule inj_onI) (rule str_int_inj)
  then show ?thesis
    by (simp add: distinct_map)
qed

text \<open>
  C9, as the code has it. Take a run of successful calls of \<^verbatim>\<open>alert\<close> from the initial
  state whose explicit IDs are pairwise distinct, hold no newline, and are none of them the
  decimal numeral of a counter value handed out (the docstring of \<^verbatim>\<open>alert\<close>: do not use
  numbers); take a marker without a newline. Then every banner carries, in its hidden
  input, the identifier it was given, and these are pairwise distinct; and
  \<^verbatim>\<open>disable_old_alerts\<close> emits \<^verbatim>\<open>setAttrs({\<close>, the line of the marker, then one line
  \<^verbatim>\<open>"alert-<id>": 1\<close> for each of the numbers below \<^verbatim>\<open>numid\<close> followed by one for each
  explicit ID in the order of the calls, separated by commas, and \<^verbatim>\<open>});\<close>. These entries
  are pairwise distinct and are, up to their order, the entries of the identifiers that
  the banners carry.
\<close>

theorem alert_ids_distinct:
  assumes "run_alerts calls alert_init = Some (banners, st)"
    and "distinct (explicit_ids calls)"
    and "set (map str_int [0 .. numid st - 1]) \<inter> set (explicit_ids calls) = {}"
    and "\<forall>i \<in> set (explicit_ids calls). nl \<notin> set i"
    and "nl \<notin> set marker"
  shows \<open>map banner_id (map snd banners) = map fmt_id (map fst banners)
       \<and> distinct (map banner_id (map snd banners))
       \<and> disable_old_alerts marker st =
           ''setAttrs({'' @ [nl] @ ''    "'' @ marker @ ''": 1,'' @ [nl]
           @ join ('','' @ [nl]) (map ((@) ''    '') (map alert_entry (alert_ids st)))
           @ [nl] @ ''}); ''
       \<and> alert_ids st = map NumId [0 .. numid st - 1] @ map StrId (explicit_ids calls)
       \<and> distinct (map alert_entry (alert_ids st))
       \<and> mset (map alert_entry (alert_ids st))
           = mset (map (\<lambda>b. ''"alert-'' @ banner_id b @ ''": 1'') (map snd banners))\<close>
proof -
  from run_alerts_state [OF assms(1)]
  have s: "strid st = explicit_ids calls"
    and m: "mset (map fst banners) = mset (map NumId [0 .. numid st - 1])
        + mset (map StrId (explicit_ids calls))"
    by (simp_all add: alert_init_def)
  from s have a: "alert_ids st = map NumId [0 .. numid st - 1] @ map StrId (explicit_ids calls)"
    by (simp add: alert_ids_def)
  with m have ms: "mset (map fst banners) = mset (alert_ids st)"
    by simp
  have nonl: "nl \<notin> set (fmt_id i)" if "i \<in> set (alert_ids st)" for i
    using that assms(4) unfolding a by (auto simp: str_int_no_nl)
  have ids: "banner_id (snd p) = fmt_id (fst p)" if "p \<in> set banners" for p
  proof -
    from that have "fst p \<in> set (map fst banners)"
      by simp
    with ms have "fst p \<in> set (alert_ids st)"
      by (metis mset_eq_setD)
    from run_alerts_banner_id [OF assms(1) _ nonl [OF this], of "snd p"] that show ?thesis
      by simp
  qed
  then have b: "map banner_id (map snd banners) = map fmt_id (map fst banners)"
    by simp
  have f: "map fmt_id (alert_ids st) = map str_int [0 .. numid st - 1] @ explicit_ids calls"
    by (simp add: a comp_def)
  have d: "distinct (map fmt_id (alert_ids st))"
    unfolding f using assms(2,3) distinct_str_int_upto [of 0 "numid st - 1"] by auto
  from ms have "mset (map fmt_id (map fst banners)) = mset (map fmt_id (alert_ids st))"
    by (metis mset_map)
  with d have d': "distinct (map fmt_id (map fst banners))"
    by (metis mset_eq_imp_distinct_iff)
  from ms have "mset (map alert_entry (alert_ids st)) = mset (map alert_entry (map fst banners))"
    by (metis mset_map)
  also have "map alert_entry (map fst banners)
      = map (\<lambda>b. ''\"alert-'' @ banner_id b @ ''\": 1'') (map snd banners)"
    using ids by (simp add: alert_entry_def)
  finally have e: "mset (map alert_entry (alert_ids st))
      = mset (map (\<lambda>b. ''\"alert-'' @ banner_id b @ ''\": 1'') (map snd banners))" .
  from nonl have "\<forall>i \<in> set (alert_ids st). nl \<notin> set (fmt_id i)"
    by blast
  note t = disable_old_alerts_text [OF assms(5) this]
  from d' have bd: "distinct (map banner_id (map snd banners))"
    by (simp only: b)
  note de = distinct_alert_entries [OF d]
  show ?thesis
    by (intro conjI b bd t a de e)
qed

theorem alert_ids_distinct_witness:
  \<open>run_alerts [(''T'', ''x'', ''info'', None), (''T'', ''x'', ''warning'', Some ''intro''),
       (''T'', ''x'', ''info'', None)] alert_init
     = Some ([(NumId 0, ''<input type="hidden" class="alert-hidder" name="attr_alert-0" value="0"/>'' @ [CHR 0x0A] @ ''<div class="alert alert-info">'' @ [CHR 0x0A] @ ''    <div>'' @ [CHR 0x0A] @ ''        <h3> Info - T</h3>'' @ [CHR 0x0A] @ ''        x'' @ [CHR 0x0A] @ ''    </div>'' @ [CHR 0x0A] @ ''    <label class="fakebutton">'' @ [CHR 0x0A] @ ''        <input type="checkbox" name="attr_alert-0" value="1" /> '' @ [CHR 0xD7] @ [CHR 0x0A] @ ''    </label>'' @ [CHR 0x0A] @ ''</div>''),
      (StrId ''intro'', ''<input type="hidden" class="alert-hidder" name="attr_alert-intro" value="0"/>'' @ [CHR 0x0A] @ ''<div class="alert alert-warning">'' @ [CHR 0x0A] @ ''    <div>'' @ [CHR 0x0A] @ ''        <h3> Warning - T</h3>'' @ [CHR 0x0A] @ ''        x'' @ [CHR 0x0A] @ ''    </div>'' @ [CHR 0x0A] @ ''    <label class="fakebutton">'' @ [CHR 0x0A] @ ''        <input type="checkbox" name="attr_alert-intro" value="1" /> '' @ [CHR 0xD7] @ [CHR 0x0A] @ ''    </label>'' @ [CHR 0x0A] @ ''</div>''),
      (NumId 1, ''<input type="hidden" class="alert-hidder" name="attr_alert-1" value="0"/>'' @ [CHR 0x0A] @ ''<div class="alert alert-info">'' @ [CHR 0x0A] @ ''    <div>'' @ [CHR 0x0A] @ ''        <h3> Info - T</h3>'' @ [CHR 0x0A] @ ''        x'' @ [CHR 0x0A] @ ''    </div>'' @ [CHR 0x0A] @ ''    <label class="fakebutton">'' @ [CHR 0x0A] @ ''        <input type="checkbox" name="attr_alert-1" value="1" /> '' @ [CHR 0xD7] @ [CHR 0x0A] @ ''    </label>'' @ [CHR 0x0A] @ ''</div>'')],
        \<lparr>numid = 2, strid = [''intro'']\<rparr>)
   \<and> distinct (explicit_ids [(''T'', ''x'', ''info'', None), (''T'', ''x'', ''warning'', Some ''intro''),
       (''T'', ''x'', ''info'', None)])
   \<and> set (map str_int [0 .. numid \<lparr>numid = 2, strid = [''intro'']\<rparr> - 1])
       \<inter> set (explicit_ids [(''T'', ''x'', ''info'', None), (''T'', ''x'', ''warning'', Some ''intro''),
       (''T'', ''x'', ''info'', None)]) = {}
   \<and> explicit_ids [(''T'', ''x'', ''info'', None), (''T'', ''x'', ''warning'', Some ''intro''),
       (''T'', ''x'', ''info'', None)] = [''intro'']
   \<and> nl \<notin> set ''intro'' \<and> nl \<notin> set ''old-alerts''
   \<and> map banner_id (map snd [(NumId 0, ''<input type="hidden" class="alert-hidder" name="attr_alert-0" value="0"/>'' @ [CHR 0x0A] @ ''<div class="alert alert-info">'' @ [CHR 0x0A] @ ''    <div>'' @ [CHR 0x0A] @ ''        <h3> Info - T</h3>'' @ [CHR 0x0A] @ ''        x'' @ [CHR 0x0A] @ ''    </div>'' @ [CHR 0x0A] @ ''    <label class="fakebutton">'' @ [CHR 0x0A] @ ''        <input type="checkbox" name="attr_alert-0" value="1" /> '' @ [CHR 0xD7] @ [CHR 0x0A] @ ''    </label>'' @ [CHR 0x0A] @ ''</div>''),
      (StrId ''intro'', ''<input type="hidden" class="alert-hidder" name="attr_alert-intro" value="0"/>'' @ [CHR 0x0A] @ ''<div class="alert alert-warning">'' @ [CHR 0x0A] @ ''    <div>'' @ [CHR 0x0A] @ ''        <h3> Warning - T</h3>'' @ [CHR 0x0A] @ ''        x'' @ [CHR 0x0A] @ ''    </div>'' @ [CHR 0x0A] @ ''    <label class="fakebutton">'' @ [CHR 0x0A] @ ''        <input type="checkbox" name="attr_alert-intro" value="1" /> '' @ [CHR 0xD7] @ [CHR 0x0A] @ ''    </label>'' @ [CHR 0x0A] @ ''</div>''),
      (NumId 1, ''<input type="hidden" class="alert-hidder" name="attr_alert-1" value="0"/>'' @ [CHR 0x0A] @ ''<div class="alert alert-info">'' @ [CHR 0x0A] @ ''    <div>'' @ [CHR 0x0A] @ ''        <h3> Info - T</h3>'' @ [CHR 0x0A] @ ''        x'' @ [CHR 0x0A] @ ''    </div>'' @ [CHR 0x0A] @ ''    <label class="fakebutton">'' @ [CHR 0x0A] @ ''        <input type="checkbox" name="attr_alert-1" value="1" /> '' @ [CHR 0xD7] @ [CHR 0x0A] @ ''    </label>'' @ [CHR 0x0A] @ ''</div>'')]) = [''0'', ''intro'', ''1'']
   \<and> distinct (map banner_id (map snd [(NumId 0, ''<input type="hidden" class="alert-hidder" name="attr_alert-0" value="0"/>'' @ [CHR 0x0A] @ ''<div class="alert alert-info">'' @ [CHR 0x0A] @ ''    <div>'' @ [CHR 0x0A] @ ''        <h3> Info - T</h3>'' @ [CHR 0x0A] @ ''        x'' @ [CHR 0x0A] @ ''    </div>'' @ [CHR 0x0A] @ ''    <label class="fakebutton">'' @ [CHR 0x0A] @ ''        <input type="checkbox" name="attr_alert-0" value="1" /> '' @ [CHR 0xD7] @ [CHR 0x0A] @ ''    </label>'' @ [CHR 0x0A] @ ''</div>''),
      (StrId ''intro'', ''<input type="hidden" class="alert-hidder" name="attr_alert-intro" value="0"/>'' @ [CHR 0x0A] @ ''<div class="alert alert-warning">'' @ [CHR 0x0A] @ ''    <div>'' @ [CHR 0x0A] @ ''        <h3> Warning - T</h3>'' @ [CHR 0x0A] @ ''        x'' @ [CHR 0x0A] @ ''    </div>'' @ [CHR 0x0A] @ ''    <label class="fakebutton">'' @ [CHR 0x0A] @ ''        <input type="checkbox" name="attr_alert-intro" value="1" /> '' @ [CHR 0xD7] @ [CHR 0x0A] @ ''    </label>'' @ [CHR 0x0A] @ ''</div>''),
      (NumId 1, ''<input type="hidden" class="alert-hidder" name="attr_alert-1" value="0"/>'' @ [CHR 0x0A] @ ''<div class="alert alert-info">'' @ [CHR 0x0A] @ ''    <div>'' @ [CHR 0x0A] @ ''        <h3> Info - T</h3>'' @ [CHR 0x0A] @ ''        x'' @ [CHR 0x0A] @ ''    </div>'' @ [CHR 0x0A] @ ''    <label class="fakebutton">'' @ [CHR 0x0A] @ ''        <input type="checkbox" name="attr_alert-1" value="1" /> '' @ [CHR 0xD7] @ [CHR 0x0A] @ ''    </label>'' @ [CHR 0x0A] @ ''</div>'')]))
   \<and> disable_old_alerts ''old-alerts'' \<lparr>numid = 2, strid = [''intro'']\<rparr> =
       ''setAttrs({'' @ [CHR 0x0A] @ ''    "old-alerts": 1,'' @ [CHR 0x0A] @ ''    "alert-0": 1,'' @ [CHR 0x0A] @ ''    "alert-1": 1,'' @ [CHR 0x0A] @ ''    "alert-intro": 1'' @ [CHR 0x0A] @ ''}); ''
   \<and> distinct (map alert_entry (alert_ids \<lparr>numid = 2, strid = [''intro'']\<rparr>))\<close>
proof -
  let ?calls = \<open>[(''T'', ''x'', ''info'', None), (''T'', ''x'', ''warning'', Some ''intro''),
       (''T'', ''x'', ''info'', None)]\<close>
  let ?bs = \<open>[(NumId 0, ''<input type="hidden" class="alert-hidder" name="attr_alert-0" value="0"/>'' @ [CHR 0x0A] @ ''<div class="alert alert-info">'' @ [CHR 0x0A] @ ''    <div>'' @ [CHR 0x0A] @ ''        <h3> Info - T</h3>'' @ [CHR 0x0A] @ ''        x'' @ [CHR 0x0A] @ ''    </div>'' @ [CHR 0x0A] @ ''    <label class="fakebutton">'' @ [CHR 0x0A] @ ''        <input type="checkbox" name="attr_alert-0" value="1" /> '' @ [CHR 0xD7] @ [CHR 0x0A] @ ''    </label>'' @ [CHR 0x0A] @ ''</div>''),
      (StrId ''intro'', ''<input type="hidden" class="alert-hidder" name="attr_alert-intro" value="0"/>'' @ [CHR 0x0A] @ ''<div class="alert alert-warning">'' @ [CHR 0x0A] @ ''    <div>'' @ [CHR 0x0A] @ ''        <h3> Warning - T</h3>'' @ [CHR 0x0A] @ ''        x'' @ [CHR 0x0A] @ ''    </div>'' @ [CHR 0x0A] @ ''    <label class="fakebutton">'' @ [CHR 0x0A] @ ''        <input type="checkbox" name="attr_alert-intro" value="1" /> '' @ [CHR 0xD7] @ [CHR 0x0A] @ ''    </label>'' @ [CHR 0x0A] @ ''</div>''),
      (NumId 1, ''<input type="hidden" class="alert-hidder" name="attr_alert-1" value="0"/>'' @ [CHR 0x0A] @ ''<div class="alert alert-info">'' @ [CHR 0x0A] @ ''    <div>'' @ [CHR 0x0A] @ ''        <h3> Info - T</h3>'' @ [CHR 0x0A] @ ''        x'' @ [CHR 0x0A] @ ''    </div>'' @ [CHR 0x0A] @ ''    <label class="fakebutton">'' @ [CHR 0x0A] @ ''        <input type="checkbox" name="attr_alert-1" value="1" /> '' @ [CHR 0xD7] @ [CHR 0x0A] @ ''    </label>'' @ [CHR 0x0A] @ ''</div>'')]\<close>
  let ?st = "\<lparr>numid = 2, strid = [''intro'']\<rparr>"
  have r: "run_alerts ?calls alert_init = Some (?bs, ?st)"
    by code_simp
  have d: "distinct (explicit_ids ?calls)"
    by simp
  have n: "set (map str_int [0 .. numid ?st - 1]) \<inter> set (explicit_ids ?calls) = {}"
    by code_simp
  have e: "explicit_ids ?calls = [''intro'']"
    by simp
  have l: "\<forall>i \<in> set (explicit_ids ?calls). nl \<notin> set i"
    by (simp add: nl_def)
  have m: "nl \<notin> set ''old-alerts''" and i: "nl \<notin> set ''intro''"
    by (simp_all add: nl_def)
  note c = alert_ids_distinct [OF r d n l m]
  have f: "map fmt_id (map fst ?bs) = [''0'', ''intro'', ''1'']"
    by code_simp
  have t: \<open>''setAttrs({'' @ [nl] @ ''    "'' @ ''old-alerts'' @ ''": 1,'' @ [nl]
           @ join ('','' @ [nl]) (map ((@) ''    '') (map alert_entry (alert_ids ?st)))
           @ [nl] @ ''}); '' =
       ''setAttrs({'' @ [CHR 0x0A] @ ''    "old-alerts": 1,'' @ [CHR 0x0A] @ ''    "alert-0": 1,'' @ [CHR 0x0A] @ ''    "alert-1": 1,'' @ [CHR 0x0A] @ ''    "alert-intro": 1'' @ [CHR 0x0A] @ ''}); ''\<close>
    by code_simp
  from c [THEN conjunct1] f have c1: "map banner_id (map snd ?bs) = [''0'', ''intro'', ''1'']"
    by (rule trans)
  note c2 = c [THEN conjunct2, THEN conjunct1]
  from c [THEN conjunct2, THEN conjunct2, THEN conjunct1] t
  have c3: \<open>disable_old_alerts ''old-alerts'' ?st =
       ''setAttrs({'' @ [CHR 0x0A] @ ''    "old-alerts": 1,'' @ [CHR 0x0A] @ ''    "alert-0": 1,'' @ [CHR 0x0A] @ ''    "alert-1": 1,'' @ [CHR 0x0A] @ ''    "alert-intro": 1'' @ [CHR 0x0A] @ ''}); ''\<close>
    by (rule trans)
  note c4 = c [THEN conjunct2, THEN conjunct2, THEN conjunct2, THEN conjunct2, THEN conjunct1]
  show ?thesis
    by (intro conjI r d n e i m c1 c2 c3 c4)
qed

text \<open>
  C9, as stated, fails. After \<^verbatim>\<open>alert(..., ID=None)\<close> and \<^verbatim>\<open>alert(..., ID="0")\<close>, a run whose
  explicit IDs are pairwise distinct, the two banners are the same text, with the
  identifier \<^verbatim>\<open>0\<close>, and \<^verbatim>\<open>disable_old_alerts\<close> emits the entry \<^verbatim>\<open>"alert-0": 1\<close> twice.
  After one banner only, the marker \<^verbatim>\<open>alert-0\<close> makes the emitted text hold that entry
  twice for one banner. After a banner whose ID holds a newline followed by three blanks,
  \<^verbatim>\<open>textwrap.dedent\<close> alters the entry and shifts the other lines, so that the emitted
  text holds no entry of that ID.
\<close>

theorem alert_numeric_id_counterexample:
  \<open>run_alerts [(''T'', ''x'', ''info'', None), (''T'', ''x'', ''info'', Some ''0'')] alert_init
     = Some ([(NumId 0, ''<input type="hidden" class="alert-hidder" name="attr_alert-0" value="0"/>'' @ [CHR 0x0A] @ ''<div class="alert alert-info">'' @ [CHR 0x0A] @ ''    <div>'' @ [CHR 0x0A] @ ''        <h3> Info - T</h3>'' @ [CHR 0x0A] @ ''        x'' @ [CHR 0x0A] @ ''    </div>'' @ [CHR 0x0A] @ ''    <label class="fakebutton">'' @ [CHR 0x0A] @ ''        <input type="checkbox" name="attr_alert-0" value="1" /> '' @ [CHR 0xD7] @ [CHR 0x0A] @ ''    </label>'' @ [CHR 0x0A] @ ''</div>''),
              (StrId ''0'', ''<input type="hidden" class="alert-hidder" name="attr_alert-0" value="0"/>'' @ [CHR 0x0A] @ ''<div class="alert alert-info">'' @ [CHR 0x0A] @ ''    <div>'' @ [CHR 0x0A] @ ''        <h3> Info - T</h3>'' @ [CHR 0x0A] @ ''        x'' @ [CHR 0x0A] @ ''    </div>'' @ [CHR 0x0A] @ ''    <label class="fakebutton">'' @ [CHR 0x0A] @ ''        <input type="checkbox" name="attr_alert-0" value="1" /> '' @ [CHR 0xD7] @ [CHR 0x0A] @ ''    </label>'' @ [CHR 0x0A] @ ''</div>'')],
        \<lparr>numid = 1, strid = [''0'']\<rparr>)
   \<and> distinct (explicit_ids [(''T'', ''x'', ''info'', None), (''T'', ''x'', ''info'', Some ''0'')])
   \<and> disable_old_alerts ''m'' \<lparr>numid = 1, strid = [''0'']\<rparr> =
       ''setAttrs({'' @ [CHR 0x0A] @ ''    "m": 1,'' @ [CHR 0x0A] @ ''    "alert-0": 1,'' @ [CHR 0x0A] @ ''    "alert-0": 1'' @ [CHR 0x0A] @ ''}); ''
   \<and> disable_old_alerts ''alert-0'' (snd (alert ''T'' ''x'' ''info'' None alert_init)) =
       ''setAttrs({'' @ [CHR 0x0A] @ ''    "alert-0": 1,'' @ [CHR 0x0A] @ ''    "alert-0": 1'' @ [CHR 0x0A] @ ''}); ''
   \<and> disable_old_alerts ''m''
         (snd (alert ''T'' ''x'' ''info'' (Some (''a'' @ [CHR 0x0A] @ ''   b'')) alert_init)) =
       ''     setAttrs({'' @ [CHR 0x0A] @ ''         "m": 1,'' @ [CHR 0x0A] @ ''         "alert-a'' @ [CHR 0x0A] @ ''b": 1'' @ [CHR 0x0A] @ ''     }); ''\<close>
  by code_simp

section \<open>The repeated templates\<close>

lemma str_count_prefix:
  "sub \<noteq> [] \<Longrightarrow> str_count sub (sub @ r) = Suc (str_count sub r)"
  by (cases sub) simp_all

lemma str_count_no_prefix:
  "sub \<noteq> [] \<Longrightarrow> \<not> prefix sub (c # cs) \<Longrightarrow> str_count sub (c # cs) = str_count sub cs"
  by simp

text \<open>Counting is additive over a concatenation when no occurrence can begin in the first
  part and end in the second.\<close>

lemma str_count_append_clean:
  assumes "sub \<noteq> []"
    and "\<forall>p. p \<noteq> [] \<and> strict_prefix p sub \<longrightarrow> \<not> suffix p x"
  shows "str_count sub (x @ z) = str_count sub x + str_count sub z"
  using assms(2)
proof (induction x rule: length_induct)
  case (1 x)
  show ?case
  proof (cases x)
    case Nil
    with assms(1) show ?thesis by simp
  next
    case (Cons c cs)
    have inherit: "\<forall>p. p \<noteq> [] \<and> strict_prefix p sub \<longrightarrow> \<not> suffix p y" if "suffix y x" for y
      using "1.prems" that suffix_order.trans by blast
    show ?thesis
    proof (cases "prefix sub (x @ z)")
      case True
      have fits: "prefix sub x"
      proof (rule ccontr)
        assume n: "\<not> prefix sub x"
        from True have "prefix sub x \<or> prefix x sub"
          using prefix_append prefix_same_cases by (metis prefix_def)
        with n have "strict_prefix x sub"
          by (auto simp: strict_prefix_def)
        with "1.prems" Cons show False
          by (metis list.distinct(1) suffix_order.refl)
      qed
      then obtain r where r: "x = sub @ r"
        by (auto simp: prefix_def)
      with assms(1) have len: "length r < length x"
        by simp
      have "suffix r x"
        using r by (simp add: suffix_def)
      from "1.IH" len inherit [OF this]
      have "str_count sub (r @ z) = str_count sub r + str_count sub z"
        by blast
      moreover have "str_count sub (x @ z) = Suc (str_count sub (r @ z))"
        using str_count_prefix [OF assms(1), of "r @ z"] r by simp
      moreover have "str_count sub x = Suc (str_count sub r)"
        using str_count_prefix [OF assms(1), of r] r by simp
      ultimately show ?thesis by simp
    next
      case False
      then have nf: "\<not> prefix sub x"
        using prefix_prefix by blast
      have "suffix cs x"
        using Cons by (simp add: suffix_def)
      from "1.IH" inherit [OF this] Cons
      have "str_count sub (cs @ z) = str_count sub cs + str_count sub z"
        by simp
      moreover have "str_count sub (x @ z) = str_count sub (cs @ z)"
        using str_count_no_prefix [OF assms(1), of c "cs @ z"] False Cons by simp
      moreover have "str_count sub x = str_count sub cs"
        using str_count_no_prefix [OF assms(1), of c cs] nf Cons by simp
      ultimately show ?thesis
        by simp
    qed
  qed
qed

lemma repeat_template_count:
  assumes "sub \<noteq> []"
    and "\<forall>v \<in> set repeat. str_count sub (str_replace rep_key v template) = 1
           \<and> (\<forall>p. p \<noteq> [] \<and> strict_prefix p sub
                  \<longrightarrow> \<not> suffix p (str_replace rep_key v template))"
  shows "str_count sub (repeat_template template repeat rep_key) = length repeat"
  using assms(2)
proof (induction repeat)
  case Nil
  with assms(1) show ?case by (simp add: repeat_template_def)
next
  case (Cons v repeat)
  then have "str_count sub (repeat_template template repeat rep_key) = length repeat"
    by simp
  moreover from Cons.prems have
    "str_count sub (str_replace rep_key v template @ repeat_template template repeat rep_key)
      = str_count sub (str_replace rep_key v template)
        + str_count sub (repeat_template template repeat rep_key)"
    using str_count_append_clean [OF assms(1)] by simp
  ultimately show ?case
    using Cons.prems by (simp add: repeat_template_def)
qed

text \<open>A string whose last character occurs in the marker at most as its last one ends in
  no proper prefix of the marker.\<close>

lemma no_straddle_last:
  assumes "x \<noteq> []" and "last x \<notin> set (butlast sub)"
  shows "\<forall>p. p \<noteq> [] \<and> strict_prefix p sub \<longrightarrow> \<not> suffix p x"
proof (intro allI impI notI)
  fix p assume p: "p \<noteq> [] \<and> strict_prefix p sub" and s: "suffix p x"
  from s obtain zs where "x = zs @ p"
    by (auto simp: suffix_def)
  with p have "last x = last p"
    by simp
  moreover from p have "last p \<in> set p"
    by simp
  moreover from p obtain us where "sub = p @ us" "us \<noteq> []"
    by (auto simp: strict_prefix_def prefix_def)
  then have "set p \<subseteq> set (butlast sub)"
    by (simp add: butlast_append)
  ultimately show False
    using assms(2) by auto
qed

subsection \<open>Replacing and counting across a concatenation\<close>

lemma prefix_append_safe:
  assumes "c \<notin> set key"
  shows "prefix key (s @ c # r) \<longleftrightarrow> prefix key s"
proof
  assume "prefix key (s @ c # r)"
  then have "prefix key s \<or> (\<exists>us. key = s @ us \<and> prefix us (c # r))"
    by (metis prefix_append prefix_def)
  then show "prefix key s"
  proof
    assume "\<exists>us. key = s @ us \<and> prefix us (c # r)"
    then obtain us where us: "key = s @ us" "prefix us (c # r)" by blast
    show ?thesis
    proof (cases us)
      case Nil
      with us show ?thesis by simp
    next
      case (Cons u us')
      with us have "u = c" by simp
      with us Cons assms show ?thesis by simp
    qed
  qed
next
  assume "prefix key s"
  then show "prefix key (s @ c # r)"
    using prefix_prefix by fastforce
qed

lemma str_replace_split:
  assumes "key \<noteq> []" and "c \<notin> set key"
  shows "str_replace key v (s @ c # r) = str_replace key v s @ str_replace key v (c # r)"
proof (induction s rule: length_induct)
  case (1 s)
  show ?case
  proof (cases s)
    case Nil
    with assms show ?thesis by simp
  next
    case (Cons x xs)
    show ?thesis
    proof (cases "prefix key s")
      case True
      then obtain t where t: "s = key @ t"
        by (auto simp: prefix_def)
      with assms(1) have "length t < length s" by simp
      with "1.IH"
      have ih: "str_replace key v (t @ c # r) = str_replace key v t @ str_replace key v (c # r)"
        by blast
      have a: "str_replace key v (key @ u) = v @ str_replace key v u" for u
        using assms(1) by (cases key) simp_all
      from a [of "t @ c # r"] a [of t] ih t show ?thesis
        by simp
    next
      case False
      then have nf: "\<not> prefix key (s @ c # r)"
        using prefix_append_safe [OF assms(2)] by simp
      from "1.IH" Cons
      have ih: "str_replace key v (xs @ c # r) = str_replace key v xs @ str_replace key v (c # r)"
        by simp
      have "str_replace key v (x # xs @ c # r) = x # str_replace key v (xs @ c # r)"
        using nf assms(1) Cons by simp
      moreover have "str_replace key v (x # xs) = x # str_replace key v xs"
        using False assms(1) Cons by simp
      ultimately show ?thesis
        using ih Cons by simp
    qed
  qed
qed

lemma set_str_replace: "set (str_replace key v s) \<subseteq> set s \<union> set v"
proof (induction key v s rule: str_replace.induct)
  case (1 old new)
  then show ?case by auto
next
  case (2 old new c cs)
  show ?case
  proof (cases "old = []")
    case True
    with 2 show ?thesis by auto
  next
    case False
    show ?thesis
    proof (cases "prefix old (c # cs)")
      case True
      with False 2 have "set (str_replace old new (drop (length old) (c # cs)))
          \<subseteq> set (drop (length old) (c # cs)) \<union> set new"
        by simp
      moreover have "set (drop (length old) (c # cs)) \<subseteq> set (c # cs)"
        by (rule set_drop_subset)
      ultimately show ?thesis
        using True False by auto
    next
      case False
      with \<open>old \<noteq> []\<close> 2 show ?thesis by auto
    qed
  qed
qed

lemma str_count_skip:
  "sub \<noteq> [] \<Longrightarrow> hd sub \<notin> set a \<Longrightarrow> str_count sub (a @ s) = str_count sub s"
proof (induction a)
  case Nil
  then show ?case by simp
next
  case (Cons c a)
  then have "\<not> prefix sub (c # a @ s)"
    by (cases sub) auto
  with Cons show ?case by simp
qed

subsection \<open>The rows of the personality traits\<close>

lemma template_lines:
  "personality_trait_template simple stress =
     join [nl] (map (\<lambda>l. ''        '' @ l) (personality_lines simple stress))"
  by (simp add: personality_trait_template_def personality_lines_def)

lemma dedent_personality:
  assumes "nl \<notin> set simple" "nl \<notin> set stress"
  shows "dedent (personality_trait_template simple stress)
       = join [nl] (personality_lines simple stress)"
proof -
  have "\<forall>l \<in> set (map (\<lambda>l. ''        '' @ l) (personality_lines simple stress)). nl \<notin> set l"
    using assms by (simp add: personality_lines_def nl_def)
  then have s: "split_nl (personality_trait_template simple stress)
      = map (\<lambda>l. ''        '' @ l) (personality_lines simple stress)"
    unfolding template_lines by (intro split_nl_join) (simp_all add: personality_lines_def)
  show ?thesis
    unfolding dedent_def s
    by (simp add: personality_lines_def is_blank_def margin_step_def Let_def)
qed

lemma personality_row_count:
  assumes "CHR ''<'' \<notin> set simple" "CHR ''<'' \<notin> set stress" "CHR ''<'' \<notin> set v"
  shows "str_count ''<tr>''
           (str_replace ''$$'' v (join [nl] (personality_lines simple stress))) = 1"
proof -
  have a: "CHR ''<'' \<notin> set (str_replace ''$$'' v simple)"
    and b: "CHR ''<'' \<notin> set (str_replace ''$$'' v stress)"
    using assms set_str_replace [of "''$$''" v simple] set_str_replace [of "''$$''" v stress]
    by auto
  show ?thesis
    using a b assms(3)
    by (simp add: personality_lines_def str_replace_split str_count_skip nl_def)
qed

lemma personality_row_last:
  "last (str_replace ''$$'' v (join [nl] (personality_lines simple stress))) = CHR ''>''"
  by (simp add: personality_lines_def str_replace_split nl_def)

lemma personality_row_nonempty:
  "str_replace ''$$'' v (join [nl] (personality_lines simple stress)) \<noteq> []"
  by (simp add: personality_lines_def)

lemma range_1_7: "map str_int [1 .. 6] = [''1'', ''2'', ''3'', ''4'', ''5'', ''6'']"
  by code_simp

lemma personality_rows_count:
  assumes "CHR ''<'' \<notin> set simple" "CHR ''<'' \<notin> set stress"
    and "nl \<notin> set simple" "nl \<notin> set stress"
  shows "str_count ''<tr>'' (personality_trait_rows simple stress) = 6"
proof -
  let ?row = "\<lambda>v. str_replace ''$$'' v (join [nl] (personality_lines simple stress))"
  have clean: "\<forall>p. p \<noteq> [] \<and> strict_prefix p ''<tr>'' \<longrightarrow> \<not> suffix p (?row v)" for v
    by (rule no_straddle_last) (simp_all add: personality_row_last personality_row_nonempty)
  have one: "str_count ''<tr>'' (?row v) = 1" if "v \<in> set (map str_int [1 .. 6])" for v
  proof -
    from that have "CHR ''<'' \<notin> set v"
      unfolding range_1_7 by auto
    with assms(1,2) show ?thesis
      by (rule personality_row_count)
  qed
  have "str_count ''<tr>''
      (repeat_template (join [nl] (personality_lines simple stress)) (map str_int [1 .. 6]) ''$$'')
      = length (map str_int [1 .. 6])"
    by (rule repeat_template_count) (use one clean in simp_all)
  then show ?thesis
    by (simp add: personality_trait_rows_def dedent_personality [OF assms(3,4)])
qed

text \<open>
  C7. Repeating any template over an empty sequence of values gives the empty string.
\<close>

theorem repeat_template_empty: "repeat_template template [] rep_key = []"
  by (simp add: repeat_template_def)

text \<open>
  C2, amended. For a nonempty piece \<open>sub\<close> of static text: if every instantiated row (the
  template with the placeholder replaced by one value) contains \<open>sub\<close> exactly once and
  ends in no proper nonempty prefix of \<open>sub\<close>, the repeated output contains \<open>sub\<close> as many
  times as there are values. In particular the rows of the personality traits, repeated
  over \<^verbatim>\<open>range(1, 7)\<close>, contain \<^verbatim>\<open><tr>\<close> exactly 6 times, for roll macros \<open>simple\<close> and
  \<open>stress\<close> free of \<^verbatim>\<open><\<close> and of newlines.
\<close>

theorem repeat_template_static_count:
  "(sub \<noteq> [] \<and>
    (\<forall>v \<in> set repeat. str_count sub (str_replace rep_key v template) = 1
        \<and> (\<forall>p. p \<noteq> [] \<and> strict_prefix p sub
               \<longrightarrow> \<not> suffix p (str_replace rep_key v template)))
    \<longrightarrow> str_count sub (repeat_template template repeat rep_key) = length repeat)
   \<and> (CHR ''<'' \<notin> set simple \<and> CHR ''<'' \<notin> set stress \<and> nl \<notin> set simple \<and> nl \<notin> set stress
    \<longrightarrow> str_count ''<tr>'' (personality_trait_rows simple stress) = 6)"
  using repeat_template_count [of sub repeat rep_key template]
    personality_rows_count [of simple stress]
  by blast

theorem repeat_template_static_count_witness:
  "str_count ''<tr>'' (repeat_template ''<tr><td>$$</td></tr>'' [''a'', ''b'', ''c''] ''$$'')
     = length [''a'', ''b'', ''c'']
   \<and> str_count ''<tr>'' (personality_trait_rows ''Personality_Trait$$_Score'' ''[[1d10]]'') = 6"
proof -
  let ?T = "''<tr><td>$$</td></tr>''"
  have clean: "\<forall>p. p \<noteq> [] \<and> strict_prefix p ''<tr>'' \<longrightarrow> \<not> suffix p (str_replace ''$$'' v ?T)"
    if "v \<in> set [''a'', ''b'', ''c'']" for v
    by (rule no_straddle_last) (use that in auto)
  have one: "str_count ''<tr>'' (str_replace ''$$'' v ?T) = 1"
    if "v \<in> set [''a'', ''b'', ''c'']" for v
    using that by auto
  have g: "''<tr>'' \<noteq> [] \<and>
    (\<forall>v \<in> set [''a'', ''b'', ''c'']. str_count ''<tr>'' (str_replace ''$$'' v ?T) = 1
        \<and> (\<forall>p. p \<noteq> [] \<and> strict_prefix p ''<tr>''
               \<longrightarrow> \<not> suffix p (str_replace ''$$'' v ?T)))"
    using one clean by blast
  have h: "CHR ''<'' \<notin> set ''Personality_Trait$$_Score'' \<and> CHR ''<'' \<notin> set ''[[1d10]]''
      \<and> nl \<notin> set ''Personality_Trait$$_Score'' \<and> nl \<notin> set ''[[1d10]]''"
    by (simp add: nl_def)
  from repeat_template_static_count
         [of "''<tr>''" "[''a'', ''b'', ''c'']" "''$$''" ?T
             "''Personality_Trait$$_Score''" "''[[1d10]]''"] g h
  show ?thesis
    by blast
qed

text \<open>
  C2, as stated, fails: the template \<^verbatim>\<open>a$$\<close> has one placeholder and the static text
  \<^verbatim>\<open>a\<close>; repeated over the one-entry table \<^verbatim>\<open>["a"]\<close> it gives \<^verbatim>\<open>aa\<close>, where the static text
  occurs twice.
\<close>

theorem repeat_template_static_count_counterexample:
  "repeat_template ''a$$'' [''a''] ''$$'' = ''aa''
   \<and> str_count ''$$'' ''a$$'' = 1
   \<and> str_count ''a'' (repeat_template ''a$$'' [''a''] ''$$'') = 2
   \<and> length [''a''] = 1"
  by (simp add: repeat_template_def)

section \<open>The headings of the documentation\<close>

text \<open>
  C8. When the two libraries turn the text into a single \<^verbatim>\<open>h1\<close> element without
  attributes, as they do for a line \<^verbatim>\<open># Heading\<close>, the loop over the headings gives that
  element the class attribute \<^verbatim>\<open>" heading_label"\<close> and changes nothing else.
\<close>

theorem documentation_heading_label:
  assumes "md text = [Tag ''h1'' [] [NavigableString heading]]"
  shows "documentation md text =
     Inr [Tag ''h1'' [(''class'', AttrStr '' heading_label'')] [NavigableString heading]]"
proof -
  have "label_headings [1 .. 9] [Tag ''h1'' [] [NavigableString heading]] =
     Inr [Tag ''h1'' [(''class'', AttrStr '' heading_label'')] [NavigableString heading]]"
    by code_simp
  with assms show ?thesis
    by (simp add: documentation_def)
qed

theorem documentation_heading_label_witness:
  "(\<lambda>t. [Tag ''h1'' [] [NavigableString (drop 2 t)]]) ''# Heading''
     = [Tag ''h1'' [] [NavigableString ''Heading'']]
   \<and> documentation (\<lambda>t. [Tag ''h1'' [] [NavigableString (drop 2 t)]]) ''# Heading'' =
     Inr [Tag ''h1'' [(''class'', AttrStr '' heading_label'')] [NavigableString ''Heading'']]"
proof -
  have m: "(\<lambda>t. [Tag ''h1'' [] [NavigableString (drop 2 t)]]) ''# Heading''
     = [Tag ''h1'' [] [NavigableString ''Heading'']]"
    by simp
  from documentation_heading_label
         [of "\<lambda>t. [Tag ''h1'' [] [NavigableString (drop 2 t)]]" "''# Heading''" "''Heading''"] m
  show ?thesis
    by blast
qed

end
